theory Spec2Isabelle
  imports Complex_Main
begin

section \<open>Numbers\<close>

text \<open>
  JavaScript numbers are modelled as real numbers: every arithmetic operation of the
  source is read as the exact operation, so the development verifies the algorithms and
  not the rounding of IEEE doubles. HSL colours are triples of numbers (the arrays
  \<open>[h, s, l]\<close>), RGB colours are triples of integers, levels are integers.
\<close>

type_synonym hsl = "real \<times> real \<times> real"
type_synonym rgb = "int \<times> int \<times> int"
type_synonym lab = "real \<times> real \<times> real"

text \<open>\<open>Math.round\<close>: the nearest integer, halves rounded up.\<close>

definition js_round :: "real \<Rightarrow> int" where
  "js_round x = \<lfloor>x + 1 / 2\<rfloor>"

text \<open>\<open>Math.trunc\<close> and the remainder operator \<open>%\<close>, whose result takes the sign of the dividend.\<close>

definition js_trunc :: "real \<Rightarrow> int" where
  "js_trunc x = (if 0 \<le> x then \<lfloor>x\<rfloor> else - \<lfloor>- x\<rfloor>)"

definition js_mod :: "real \<Rightarrow> real \<Rightarrow> real" where
  "js_mod a b = a - b * of_int (js_trunc (a / b))"

section \<open>color-utils.js\<close>

definition rgbToHSL :: "rgb \<Rightarrow> hsl" where
  "rgbToHSL rgb = (case rgb of (r255, g255, b255) \<Rightarrow>
     let r = real_of_int r255 / 255;
         g = real_of_int g255 / 255;
         b = real_of_int b255 / 255;
         mx = max (max r g) b;
         mn = min (min r g) b;
         diff = mx - mn;
         l = (mx + mn) / 2
     in if diff \<noteq> 0 then
          let s = (if l > 1 / 2 then diff / (2 - mx - mn) else diff / (mx + mn));
              h = (if mx = r then (g - b) / diff + (if g < b then 6 else 0)
                   else if mx = g then (b - r) / diff + 2
                   else if mx = b then (r - g) / diff + 4
                   else 0) / 6
          in (of_int (js_round (h * 360)), of_int (js_round (s * 100)), of_int (js_round (l * 100)))
        else (of_int (js_round (0 * 360)), of_int (js_round (0 * 100)), of_int (js_round (l * 100))))"

definition hue2rgb :: "real \<Rightarrow> real \<Rightarrow> real \<Rightarrow> real" where
  "hue2rgb p q t0 =
     (let t1 = (if t0 < 0 then t0 + 1 else t0);
          t = (if t1 > 1 then t1 - 1 else t1)
      in if t < 1 / 6 then p + (q - p) * 6 * t
         else if t < 1 / 2 then q
         else if t < 2 / 3 then p + (q - p) * (2 / 3 - t) * 6
         else p)"

definition hslToRgb :: "hsl \<Rightarrow> rgb" where
  "hslToRgb hsl = (case hsl of (h360, s100, l100) \<Rightarrow>
     let h = h360 / 360; s = s100 / 100; l = l100 / 100
     in if s = 0 then (let gray = js_round (l * 255) in (gray, gray, gray))
        else
          let q = (if l < 1 / 2 then l * (1 + s) else l + s - l * s);
              p = 2 * l - q;
              r = hue2rgb p q (h + 1 / 3);
              g = hue2rgb p q h;
              b = hue2rgb p q (h - 1 / 3)
          in (js_round (r * 255), js_round (g * 255), js_round (b * 255)))"

text \<open>\<open>Number.prototype.toString(16)\<close> on an integer between 0 and 255, as \<open>toHex\<close> pads it.\<close>

definition hexDigit :: "int \<Rightarrow> char" where
  "hexDigit d = ''0123456789abcdef'' ! nat d"

definition toHex :: "int \<Rightarrow> string" where
  "toHex n = (let v = js_round (max 0 (min 255 (real_of_int n)))
              in [hexDigit (v div 16), hexDigit (v mod 16)])"

definition rgbToHex :: "rgb \<Rightarrow> string" where
  "rgbToHex rgb = (case rgb of (r, g, b) \<Rightarrow> ''#'' @ toHex r @ toHex g @ toHex b)"

definition hslToHex :: "hsl \<Rightarrow> string" where
  "hslToHex hsl = rgbToHex (hslToRgb hsl)"

definition linearize :: "int \<Rightarrow> real" where
  "linearize c = (let val = real_of_int c / 255
                  in if val \<le> 0.03928 then val / 12.92 else ((val + 0.055) / 1.055) powr 2.4)"

definition calculateLuminance :: "rgb \<Rightarrow> real" where
  "calculateLuminance rgb = (case rgb of (r, g, b) \<Rightarrow>
     0.2126 * linearize r + 0.7152 * linearize g + 0.0722 * linearize b)"

text \<open>The neutrality test of \<open>js/color-utils.js\<close>, which the generator calls.\<close>

definition isNeutralColor :: "hsl \<Rightarrow> bool" where
  "isNeutralColor hsl = (fst (snd hsl) < 10)"

text \<open>The neutrality test of the second copy of the colour utilities (the one with the
  LAB conversions), commented there as "Updated threshold from 10% to 15%".\<close>

definition isNeutralColor_updated :: "hsl \<Rightarrow> bool" where
  "isNeutralColor_updated hsl = (fst (snd hsl) < 15)"

definition clampHSL :: "hsl \<Rightarrow> hsl" where
  "clampHSL hsl = (case hsl of (h, s, l) \<Rightarrow>
     (js_mod (js_mod h 360 + 360) 360, max 0 (min 100 s), max 0 (min 100 l)))"

section \<open>accessibility.js: contrast\<close>

definition getContrastRatio :: "rgb \<Rightarrow> rgb \<Rightarrow> real" where
  "getContrastRatio rgb1 rgb2 =
     (let l1 = calculateLuminance rgb1;
          l2 = calculateLuminance rgb2;
          lighter = max l1 l2;
          darker = min l1 l2
      in of_int (js_round (((lighter + 0.05) / (darker + 0.05)) * 100)) / 100)"

record contrast_side =
  ratio :: real
  passesNormal :: bool
  passesLarge :: bool
  passesAAA :: bool

record contrast_info =
  black :: contrast_side
  white :: contrast_side
  preferredText :: string

definition blackRgb :: rgb where "blackRgb = (0, 0, 0)"
definition whiteRgb :: rgb where "whiteRgb = (255, 255, 255)"

definition contrastSide :: "real \<Rightarrow> contrast_side" where
  "contrastSide r = \<lparr>ratio = r, passesNormal = (r \<ge> 4.5), passesLarge = (r \<ge> 3.0),
                     passesAAA = (r \<ge> 7.0)\<rparr>"

definition getContrastInfo :: "rgb \<Rightarrow> contrast_info" where
  "getContrastInfo rgb =
     (let blackRatio = getContrastRatio rgb blackRgb;
          whiteRatio = getContrastRatio rgb whiteRgb
      in \<lparr>black = contrastSide blackRatio, white = contrastSide whiteRatio,
          preferredText = (if blackRatio > whiteRatio then ''#000000'' else ''#ffffff'')\<rparr>)"

section \<open>scale-generator.js\<close>

text \<open>The registry of configurations; only the level lists matter to the generator.\<close>

definition SCALE_CONFIGURATIONS :: "string \<Rightarrow> int list option" where
  "SCALE_CONFIGURATIONS key =
     (if key = ''triad'' then Some [300, 400, 600]
      else if key = ''pentatonic'' then Some [200, 300, 400, 500, 600]
      else if key = ''diatonic'' then Some [100, 200, 300, 400, 500, 600, 700]
      else if key = ''chromatic'' then Some [50, 100, 200, 300, 400, 500, 600, 700, 800]
      else None)"

text \<open>The result is \<open>None\<close> where the source reads past the end of an empty array.\<close>

definition getBaseLevelForConfiguration :: "int list \<Rightarrow> int option" where
  "getBaseLevelForConfiguration levels =
     (if 400 \<in> set levels then Some 400
      else let sortedLevels = sort levels;
               middleIndex = length sortedLevels div 2
           in if middleIndex < length sortedLevels then Some (sortedLevels ! middleIndex) else None)"

record boundaries =
  lightestL :: real
  lightestS :: real
  darkestL :: real
  darkestS :: real
  lightHueShift :: real
  darkHueShift :: real

definition calculateDynamicBoundaries :: "hsl \<Rightarrow> boundaries" where
  "calculateDynamicBoundaries hsl400 = (case hsl400 of (baseH, baseS, baseL) \<Rightarrow>
     let lightL0 = min 94 (baseL + 44);
         lightS0 = max 0 (baseS - 1);
         darkL0 = max 24 (baseL - 26);
         darkS0 = min 100 (baseS + 28);
         lightL = (if baseL > 80 then min 96 (baseL + 16)
                   else if baseL < 30 then min 92 (baseL + 55) else lightL0);
         darkL = (if baseL > 80 then max 20 (baseL - 35)
                  else if baseL < 30 then max 15 (baseL - 15) else darkL0);
         lightS = (if baseS > 80 then max 0 (baseS - 15)
                   else if baseS < 30 then max 0 (baseS - 5) else lightS0);
         darkS = (if baseS > 80 then min 100 (baseS + 10)
                  else if baseS < 30 then min 100 (baseS + 35) else darkS0)
     in \<lparr>lightestL = lightL, lightestS = lightS, darkestL = darkL, darkestS = darkS,
         lightHueShift = 0, darkHueShift = 0\<rparr>)"

record adjustments =
  lightnessAdjustment :: real
  saturationAdjustment :: real

definition getLevelAdjustments :: "int \<Rightarrow> adjustments" where
  "getLevelAdjustments level =
     (if level = 50 then \<lparr>lightnessAdjustment = 2, saturationAdjustment = 0\<rparr>
      else if level = 100 then \<lparr>lightnessAdjustment = 1, saturationAdjustment = 0\<rparr>
      else if level = 200 then \<lparr>lightnessAdjustment = 0, saturationAdjustment = - 1\<rparr>
      else if level = 600 then \<lparr>lightnessAdjustment = 0, saturationAdjustment = 2\<rparr>
      else if level = 700 then \<lparr>lightnessAdjustment = 0, saturationAdjustment = 3\<rparr>
      else if level = 800 then \<lparr>lightnessAdjustment = - 2, saturationAdjustment = 5\<rparr>
      else \<lparr>lightnessAdjustment = 0, saturationAdjustment = 0\<rparr>)"

definition calculateNeutralHSL :: "hsl \<Rightarrow> int \<Rightarrow> hsl" where
  "calculateNeutralHSL hsl400 level = (case hsl400 of (baseH, baseS, baseL) \<Rightarrow>
     let lightestL = 95;
         darkestL = 28;
         targetL0 = (if level < 400
                     then (let factor = real_of_int (400 - level) / 350
                           in baseL + (lightestL - baseL) * factor)
                     else (let factor = real_of_int (level - 400) / 400
                           in baseL - (baseL - darkestL) * factor));
         targetL = max darkestL (min lightestL targetL0);
         targetS = (if level \<le> 100 \<or> level \<ge> 700 then max 0 (baseS - 2) else baseS)
     in (baseH, targetS, of_int (js_round targetL)))"

definition calculateNonNeutralHSL :: "hsl \<Rightarrow> int \<Rightarrow> hsl" where
  "calculateNonNeutralHSL hsl400 level = (case hsl400 of (baseH, baseS, baseL) \<Rightarrow>
     let bnd = calculateDynamicBoundaries hsl400;
         (targetH, targetS, targetL) =
           (if level < 400
            then (let factor = real_of_int (400 - level) / 350
                  in (if level \<le> 100 then js_mod (baseH + lightHueShift bnd) 360 else baseH,
                      baseS + (lightestS bnd - baseS) * factor,
                      baseL + (lightestL bnd - baseL) * factor))
            else (let factor = real_of_int (level - 400) / 400
                  in (if level \<ge> 700 then js_mod (baseH + darkHueShift bnd) 360 else baseH,
                      baseS + (darkestS bnd - baseS) * factor,
                      baseL + (darkestL bnd - baseL) * factor)));
         adj = getLevelAdjustments level
     in clampHSL (targetH, targetS + saturationAdjustment adj, targetL + lightnessAdjustment adj))"

definition calculateHSL :: "hsl \<Rightarrow> int \<Rightarrow> hsl" where
  "calculateHSL hsl400 level =
     (if level = 400 then hsl400
      else if isNeutralColor hsl400 then calculateNeutralHSL hsl400 level
      else calculateNonNeutralHSL hsl400 level)"

datatype error = UnknownConfiguration string

record swatch =
  level :: int
  hsl :: hsl
  rgb :: rgb
  hex :: string
  blackPassesNormal :: bool
  blackPassesLarge :: bool
  blackRatio :: real
  whitePassesNormal :: bool
  whitePassesLarge :: bool
  whiteRatio :: real
  preferredTextColor :: string
  name :: string
  isBase :: bool

text \<open>The colour object that \<open>createColorScale\<close> pushes for one level.\<close>

definition colorObject :: "int \<Rightarrow> hsl \<Rightarrow> bool \<Rightarrow> swatch" where
  "colorObject lv c base =
     (let rgbv = hslToRgb c;
          hexv = hslToHex c;
          contrastInfo = getContrastInfo rgbv
      in \<lparr>level = lv, hsl = c, rgb = rgbv, hex = hexv,
          blackPassesNormal = passesNormal (black contrastInfo),
          blackPassesLarge = passesLarge (black contrastInfo),
          blackRatio = ratio (black contrastInfo),
          whitePassesNormal = passesNormal (white contrastInfo),
          whitePassesLarge = passesLarge (white contrastInfo),
          whiteRatio = ratio (white contrastInfo),
          preferredTextColor = preferredText contrastInfo,
          name = [], isBase = base\<rparr>)"

definition createColorScale :: "hsl \<Rightarrow> string \<Rightarrow> error + swatch list" where
  "createColorScale baseHSL configuration =
     (case SCALE_CONFIGURATIONS configuration of
        None \<Rightarrow> Inl (UnknownConfiguration configuration)
      | Some levels \<Rightarrow>
          let clampedBaseHSL = clampHSL baseHSL;
              baseLevelForConfig = getBaseLevelForConfiguration levels
          in Inr (map (\<lambda>lv.
                   colorObject lv
                     (if Some lv = baseLevelForConfig then clampedBaseHSL
                      else calculateHSL clampedBaseHSL lv)
                     (Some lv = baseLevelForConfig)) levels))"

section \<open>dark-mode-generator.js\<close>

text \<open>\<open>Array.prototype.indexOf\<close>: the first index of the element, or \<open>-1\<close>.\<close>

fun indexOf :: "int list \<Rightarrow> int \<Rightarrow> int" where
  "indexOf [] x = - 1"
| "indexOf (y # ys) x =
     (if y = x then 0 else (let i = indexOf ys x in if i = - 1 then - 1 else i + 1))"

text \<open>
  The mapping object is a finite map from level to level, filled in the order of the
  sorted levels (a later assignment to the same key replaces the earlier one).
\<close>

definition createDarkModeLevelMapping :: "swatch list \<Rightarrow> (int \<rightharpoonup> int)" where
  "createDarkModeLevelMapping lightModeScale =
     (let levels = sort (map level lightModeScale);
          n = int (length levels);
          centerIndex = indexOf levels 400
      in if centerIndex = - 1 then
           fold (\<lambda>(index, lv) mapping.
                   let reversedIndex = n - 1 - int index
                   in mapping(lv \<mapsto> levels ! nat reversedIndex))
                (enumerate 0 levels) Map.empty
         else
           fold (\<lambda>(index, lv) mapping.
                   if lv = 400 then mapping(lv \<mapsto> 400)
                   else if int index < centerIndex then
                     (let distanceFromCenter = centerIndex - int index;
                          targetIndex = min (n - 1) (centerIndex + distanceFromCenter)
                      in mapping(lv \<mapsto> levels ! nat targetIndex))
                   else
                     (let distanceFromCenter = int index - centerIndex;
                          targetIndex = max 0 (centerIndex - distanceFromCenter)
                      in mapping(lv \<mapsto> levels ! nat targetIndex)))
                (enumerate 0 levels) Map.empty)"

record dark_options =
  useAccessibleBase :: bool
  accessibleBaseHSL :: "hsl option"
  saturationBoost :: real
  contrastAdjustment :: real

definition default_dark_options :: dark_options where
  "default_dark_options = \<lparr>useAccessibleBase = False, accessibleBaseHSL = None,
                             saturationBoost = 5, contrastAdjustment = 0.1\<rparr>"

definition applyDarkModeAdjustments :: "hsl \<Rightarrow> int \<Rightarrow> dark_options \<Rightarrow> hsl" where
  "applyDarkModeAdjustments c lv options = (case c of (h, s0, l0) \<Rightarrow>
     let s = (if \<not> isNeutralColor c then min 100 (s0 + saturationBoost options) else s0);
         l1 = (if lv < 400 then max l0 65 else if lv > 400 then min l0 35 else l0);
         contrastFactor = 1 + contrastAdjustment options;
         l = (if l1 > 50 then min 100 (l1 * contrastFactor) else max 0 (l1 / contrastFactor))
     in clampHSL (h, s, l))"

definition applyLevelSpecificDarkModeAdjustments :: "hsl \<Rightarrow> int \<Rightarrow> int \<Rightarrow> hsl" where
  "applyLevelSpecificDarkModeAdjustments c targetLevel originalLevel = (case c of (h, s0, l0) \<Rightarrow>
     let (s1, l1) =
           (if originalLevel \<le> 200 \<and> targetLevel \<ge> 600 then (min 100 (s0 + 8), min l0 30)
            else if originalLevel \<ge> 600 \<and> targetLevel \<le> 200 then (max 0 (s0 - 3), max l0 70)
            else (s0, l0));
         (s, l) =
           (if targetLevel = 50 then (s1, max l1 85)
            else if targetLevel = 800 then (min 100 (s1 + 10), min l1 25)
            else (s1, l1))
     in clampHSL (h, s, l))"

definition calculateDarkModeHSL :: "hsl \<Rightarrow> int \<Rightarrow> int \<Rightarrow> hsl" where
  "calculateDarkModeHSL baseHSL targetLevel originalLevel =
     applyLevelSpecificDarkModeAdjustments (calculateHSL baseHSL targetLevel) targetLevel originalLevel"

record dark_swatch = swatch +
  originalLevel :: int
  isDarkMode :: bool

text \<open>
  One element of the dark scale, computed from one element of the light scale. The
  value is \<open>None\<close> where the source would go on with an \<open>undefined\<close> target level (a
  level missing from the mapping); \<open>darkColor_total\<close> below shows that this never
  happens, because the mapping is built from the very scale it is applied to.
\<close>

definition darkColor ::
  "swatch list \<Rightarrow> hsl \<Rightarrow> dark_options \<Rightarrow> (int \<rightharpoonup> int) \<Rightarrow> swatch \<Rightarrow> dark_swatch option" where
  "darkColor lightModeScale darkModeBaseHSL options levelMapping lightColor =
     (case levelMapping (level lightColor) of
        None \<Rightarrow> None
      | Some targetLevel \<Rightarrow>
          let darkHSL0 =
                (if level lightColor = 400 then darkModeBaseHSL
                 else (case find (\<lambda>c. level c = targetLevel) lightModeScale of
                         Some targetLightColor \<Rightarrow> hsl targetLightColor
                       | None \<Rightarrow> calculateDarkModeHSL darkModeBaseHSL targetLevel (level lightColor)));
              darkHSL =
                (if level lightColor \<noteq> 400
                 then applyDarkModeAdjustments darkHSL0 (level lightColor) options
                 else darkHSL0);
              rgbv = hslToRgb darkHSL;
              hexv = hslToHex darkHSL;
              contrastInfo = getContrastInfo rgbv
          in Some \<lparr>level = level lightColor, hsl = darkHSL, rgb = rgbv, hex = hexv,
               blackPassesNormal = passesNormal (black contrastInfo),
               blackPassesLarge = passesLarge (black contrastInfo),
               blackRatio = ratio (black contrastInfo),
               whitePassesNormal = passesNormal (white contrastInfo),
               whitePassesLarge = passesLarge (white contrastInfo),
               whiteRatio = ratio (white contrastInfo),
               preferredTextColor = preferredText contrastInfo,
               name = name lightColor, isBase = (level lightColor = 400),
               originalLevel = targetLevel, isDarkMode = True\<rparr>)"

text \<open>\<open>useAccessibleBase && accessibleBaseHSL ? accessibleBaseHSL : baseHSL\<close>\<close>

definition darkModeBase :: "dark_options \<Rightarrow> hsl \<Rightarrow> hsl" where
  "darkModeBase options baseHSL =
     (case (useAccessibleBase options, accessibleBaseHSL options) of
        (True, Some a) \<Rightarrow> a
      | _ \<Rightarrow> baseHSL)"

definition generateDarkModeScale ::
  "swatch list \<Rightarrow> hsl \<Rightarrow> dark_options \<Rightarrow> dark_swatch option list" where
  "generateDarkModeScale lightModeScale baseHSL options =
     (let darkModeBaseHSL = darkModeBase options baseHSL;
          levelMapping = createDarkModeLevelMapping lightModeScale
      in map (darkColor lightModeScale darkModeBaseHSL options levelMapping) lightModeScale)"

text \<open>The scale that \<open>createColorScale\<close> returns, empty where it throws.\<close>

definition scaleOf :: "error + swatch list \<Rightarrow> swatch list" where
  "scaleOf r = (case r of Inr sc \<Rightarrow> sc | Inl e \<Rightarrow> [])"

section \<open>accessibility.js: the search for an accessible colour\<close>

definition calculateAccessibilityScore :: "hsl \<Rightarrow> string \<Rightarrow> real" where
  "calculateAccessibilityScore c textColor =
     (let rgbv = hslToRgb c
      in if textColor = ''black'' then getContrastRatio rgbv blackRgb
         else if textColor = ''white'' then getContrastRatio rgbv whiteRgb
         else (let blackRatio = getContrastRatio rgbv blackRgb;
                   whiteRatio = getContrastRatio rgbv whiteRgb
               in max blackRatio whiteRatio))"

text \<open>The \<open>calculateColorDistance\<close> of \<open>accessibility.js\<close> (weights 0.6, 0.25, 0.15).\<close>

definition calculateColorDistance :: "hsl \<Rightarrow> hsl \<Rightarrow> real" where
  "calculateColorDistance hsl1 hsl2 = (case hsl1 of (h1, s1, l1) \<Rightarrow> case hsl2 of (h2, s2, l2) \<Rightarrow>
     let hueDiff0 = \<bar>h1 - h2\<bar>;
         hueDiff = (if hueDiff0 > 180 then 360 - hueDiff0 else hueDiff0);
         hueWeight = 0.6;
         satWeight = 0.25;
         lightWeight = 0.15
     in (hueDiff / 180) * hueWeight * 100 +
        (\<bar>s1 - s2\<bar> / 100) * satWeight * 100 +
        (\<bar>l1 - l2\<bar> / 100) * lightWeight * 100)"

definition calculateEnhancedColorDistance :: "hsl \<Rightarrow> hsl \<Rightarrow> real \<Rightarrow> real" where
  "calculateEnhancedColorDistance hsl1 hsl2 huePreservationWeight =
     (case hsl1 of (h1, s1, l1) \<Rightarrow> case hsl2 of (h2, s2, l2) \<Rightarrow>
     let hueDiff0 = \<bar>h1 - h2\<bar>;
         hueDiff = (if hueDiff0 > 180 then 360 - hueDiff0 else hueDiff0);
         hueWeight = 0.4 + (huePreservationWeight * 0.4);
         satWeight = 0.3 - (huePreservationWeight * 0.1);
         lightWeight = 0.3 - (huePreservationWeight * 0.1);
         hueDistancePenalty =
           (if huePreservationWeight > 0.5 then (hueDiff / 180) powr 1.5 else hueDiff / 180)
     in hueDistancePenalty * hueWeight * 100 +
        (\<bar>s1 - s2\<bar> / 100) * satWeight * 100 +
        (\<bar>l1 - l2\<bar> / 100) * lightWeight * 100)"

text \<open>
  The values of \<open>i\<close> visited by \<open>for (let i = step; i <= bound; i += step)\<close> for a
  positive \<open>step\<close>. Every loop of this shape in the source steps by a positive
  literal (5, 10, 15, 20 or 30), so it always ends.
\<close>

definition forSteps :: "real \<Rightarrow> real \<Rightarrow> real list" where
  "forSteps step bound = map (\<lambda>k. real k * step) [1 ..< Suc (nat \<lfloor>bound / step\<rfloor>)]"

text \<open>\<open>[...new Set(range)]\<close>: the first occurrence of every value, in order.\<close>

definition dedupe :: "real list \<Rightarrow> real list" where
  "dedupe xs = rev (remdups (rev xs))"

text \<open>\<open>range.sort((a, b) => Math.abs(a - center) - Math.abs(b - center))\<close>, a stable sort.\<close>

definition sortByDistance :: "real \<Rightarrow> real list \<Rightarrow> real list" where
  "sortByDistance center xs = sort_key (\<lambda>a. \<bar>a - center\<bar>) xs"

definition generateHueRange :: "real \<Rightarrow> real \<Rightarrow> real list" where
  "generateHueRange centerHue tolerance =
     (if tolerance = 0 then [centerHue]
      else let step = min 15 (tolerance / 3)
           in centerHue #
              concat (map (\<lambda>i. [js_mod (centerHue + i) 360, js_mod (centerHue - i + 360) 360])
                          (forSteps step tolerance)))"

definition generateSmartSaturationRange :: "real \<Rightarrow> real \<Rightarrow> real list" where
  "generateSmartSaturationRange originalS originalL =
     (let r0 = [originalS];
          r1 = (if originalL > 80 \<or> originalL < 20
                then r0 @ concat (map (\<lambda>step. if originalS - step \<ge> 0 then [originalS - step] else [])
                                      [10, 20, 30])
                else r0);
          r2 = (if originalS < 70
                then r1 @ concat (map (\<lambda>step. if originalS + step \<le> 100 then [originalS + step] else [])
                                      [15, 30])
                else r1);
          r3 = (if originalS > 20 then r2 @ [max 0 (originalS - 40)] else r2);
          r4 = (if originalS < 80 then r3 @ [min 100 (originalS + 40)] else r3)
      in sortByDistance originalS (dedupe r4))"

definition generateSmartLightnessRange :: "real \<Rightarrow> real \<Rightarrow> real list" where
  "generateSmartLightnessRange originalL targetRatio =
     (let darkTarget = (if targetRatio \<ge> 7.0 then 25 else 35);
          lightTarget = (if targetRatio \<ge> 7.0 then 75 else 65);
          darker = map (\<lambda>i. originalL - i) (forSteps 10 (originalL - darkTarget));
          lighter = map (\<lambda>i. originalL + i) (forSteps 10 (lightTarget - originalL));
          r = (if originalL > 50 then [originalL] @ darker @ lighter
               else [originalL] @ lighter @ darker)
      in sortByDistance originalL (dedupe (r @ [5, 15, 25, 75, 85, 95])))"

definition generateSearchRange :: "real \<Rightarrow> real \<Rightarrow> real \<Rightarrow> real \<Rightarrow> real list" where
  "generateSearchRange center mn mx step =
     (let r0 = center #
               concat (map (\<lambda>i. (if center - i \<ge> mn then [center - i] else []) @
                                 (if center + i \<le> mx then [center + i] else []))
                           (forSteps step (max (center - mn) (mx - center))));
          r1 = (if mn \<notin> set r0 then r0 @ [mn] else r0);
          r2 = (if mx \<notin> set r1 then r1 @ [mx] else r1)
      in sortByDistance center r2)"

text \<open>A distance is a number or \<open>Infinity\<close>; \<open>None\<close> stands for \<open>Infinity\<close>.\<close>

definition distLess :: "real \<Rightarrow> real option \<Rightarrow> bool" where
  "distLess d best = (case best of None \<Rightarrow> True | Some b \<Rightarrow> d < b)"

definition bestBelow :: "real option \<Rightarrow> real \<Rightarrow> bool" where
  "bestBelow best bound = (case best of None \<Rightarrow> False | Some b \<Rightarrow> b < bound)"

text \<open>
  \<open>evaluateColorCandidate\<close>; the candidate's distance is always a number, the current
  best distance may still be \<open>Infinity\<close>, and then every comparison with it holds.
\<close>

definition evaluateColorCandidate ::
  "real \<Rightarrow> real \<Rightarrow> real \<Rightarrow> real option \<Rightarrow> real \<Rightarrow> bool" where
  "evaluateColorCandidate candidateScore currentScore candidateDistance currentDistance targetRatio =
     (let candidateAccessible = (candidateScore \<ge> targetRatio);
          currentAccessible = (currentScore \<ge> targetRatio)
      in if candidateAccessible \<and> \<not> currentAccessible then True
         else if currentAccessible \<and> \<not> candidateAccessible then False
         else if candidateAccessible \<and> currentAccessible then
           (let candidateWeightedScore = candidateDistance + (1 / candidateScore) * 10
            in case currentDistance of
                 None \<Rightarrow> True
               | Some cd \<Rightarrow> candidateWeightedScore < cd + (1 / currentScore) * 10)
         else if \<bar>candidateScore - currentScore\<bar> < 0.1 then distLess candidateDistance currentDistance
         else candidateScore > currentScore)"

definition generateHuePreservingFallbacks :: "real \<Rightarrow> real \<Rightarrow> hsl list" where
  "generateHuePreservingFallbacks originalH originalS =
     [(originalH, max 0 (originalS - 20), 25),
      (originalH, max 0 (originalS - 20), 75),
      (originalH, min 100 (originalS + 20), 35),
      (originalH, min 100 (originalS + 20), 65),
      (originalH, 60, 30),
      (originalH, 60, 70),
      (js_mod (originalH + 15) 360, max 20 (originalS - 10), 40),
      (js_mod (originalH - 15 + 360) 360, max 20 (originalS - 10), 60)]"

definition getHueFamily :: "real \<Rightarrow> string" where
  "getHueFamily hue =
     (if hue \<ge> 0 \<and> hue < 30 then ''red''
      else if hue \<ge> 30 \<and> hue < 60 then ''orange''
      else if hue \<ge> 60 \<and> hue < 90 then ''yellow''
      else if hue \<ge> 90 \<and> hue < 150 then ''green''
      else if hue \<ge> 150 \<and> hue < 210 then ''cyan''
      else if hue \<ge> 210 \<and> hue < 270 then ''blue''
      else if hue \<ge> 270 \<and> hue < 330 then ''purple''
      else ''red'')"

definition getAccessibleColorForHueFamily :: "string \<Rightarrow> hsl" where
  "getAccessibleColorForHueFamily hueFamily =
     (if hueFamily = ''red'' then (0, 60, 45)
      else if hueFamily = ''orange'' then (30, 70, 40)
      else if hueFamily = ''yellow'' then (50, 80, 35)
      else if hueFamily = ''green'' then (120, 60, 35)
      else if hueFamily = ''cyan'' then (180, 60, 40)
      else if hueFamily = ''blue'' then (210, 65, 45)
      else if hueFamily = ''purple'' then (270, 60, 40)
      else (210, 60, 45))"

record search_options =
  targetRatio :: real
  maxIterations :: real
  preserveHue :: bool
  allowSaturationChange :: bool
  textColor :: string
  huePreservationWeight :: real

definition default_search_options :: search_options where
  "default_search_options = \<lparr>targetRatio = 4.5, maxIterations = 150, preserveHue = True,
     allowSaturationChange = True, textColor = ''both'', huePreservationWeight = 0.8\<rparr>"

record search_state =
  bestColor :: hsl
  bestScore :: real
  bestDistance :: "real option"
  iterations :: int
  foundAccessible :: bool

record search_stage =
  hueRange :: "real list"
  saturationRange :: "real list"
  lightnessRange :: "real list"

text \<open>
  The three nested loops of one stage. A \<open>break\<close> ends the function for the loop it
  leaves; the test \<open>iterations++ > maxIterations\<close> counts the iteration it abandons.
\<close>

fun searchSaturation ::
  "search_options \<Rightarrow> hsl \<Rightarrow> real \<Rightarrow> real \<Rightarrow> real list \<Rightarrow> search_state \<Rightarrow> search_state" where
  "searchSaturation opts originalHSL h l [] st = st"
| "searchSaturation opts originalHSL h l (s # ss) st =
     (let st1 = st\<lparr>iterations := iterations st + 1\<rparr>
      in if real_of_int (iterations st) > maxIterations opts then st1
         else
           let candidateHSL = (h, s, l);
               score = calculateAccessibilityScore candidateHSL (textColor opts);
               distance = calculateEnhancedColorDistance originalHSL candidateHSL
                            (huePreservationWeight opts);
               isAccessible = (score \<ge> targetRatio opts);
               isBetter = evaluateColorCandidate score (bestScore st1) distance (bestDistance st1)
                            (targetRatio opts)
           in if isBetter then
                (let st2 = st1\<lparr>bestColor := candidateHSL, bestScore := score,
                                bestDistance := Some distance\<rparr>
                 in if isAccessible then
                      (let st3 = st2\<lparr>foundAccessible := True\<rparr>
                       in if distance < 20 then st3
                          else searchSaturation opts originalHSL h l ss st3)
                    else searchSaturation opts originalHSL h l ss st2)
              else searchSaturation opts originalHSL h l ss st1)"

fun searchLightness ::
  "search_options \<Rightarrow> hsl \<Rightarrow> real \<Rightarrow> real list \<Rightarrow> real list \<Rightarrow> search_state \<Rightarrow> search_state" where
  "searchLightness opts originalHSL h [] ss st = st"
| "searchLightness opts originalHSL h (l # ls) ss st =
     (let st1 = searchSaturation opts originalHSL h l ss st
      in if foundAccessible st1 \<and> bestBelow (bestDistance st1) 20 then st1
         else searchLightness opts originalHSL h ls ss st1)"

fun searchHue ::
  "search_options \<Rightarrow> hsl \<Rightarrow> real list \<Rightarrow> real list \<Rightarrow> real list \<Rightarrow> search_state \<Rightarrow> search_state" where
  "searchHue opts originalHSL [] ls ss st = st"
| "searchHue opts originalHSL (h # hs) ls ss st =
     (let st1 = searchLightness opts originalHSL h ls ss st
      in if foundAccessible st1 \<and> bestBelow (bestDistance st1) 20 then st1
         else searchHue opts originalHSL hs ls ss st1)"

fun searchStages :: "search_options \<Rightarrow> hsl \<Rightarrow> search_stage list \<Rightarrow> search_state \<Rightarrow> search_state" where
  "searchStages opts originalHSL [] st = st"
| "searchStages opts originalHSL (stage # stages) st =
     (if foundAccessible st then st
      else searchStages opts originalHSL stages
             (searchHue opts originalHSL (hueRange stage) (lightnessRange stage)
                (saturationRange stage) st))"

text \<open>The loop over the hue-preserving fallbacks, left at the first one that is taken.\<close>

fun searchFallbacks :: "search_options \<Rightarrow> hsl \<Rightarrow> hsl list \<Rightarrow> search_state \<Rightarrow> search_state" where
  "searchFallbacks opts originalHSL [] st = st"
| "searchFallbacks opts originalHSL (fallback # rest) st =
     (let score = calculateAccessibilityScore fallback (textColor opts);
          distance = calculateEnhancedColorDistance originalHSL fallback (huePreservationWeight opts)
      in if score \<ge> targetRatio opts \<and> distLess distance (bestDistance st)
         then st\<lparr>bestColor := fallback, bestScore := score, bestDistance := Some distance,
                 foundAccessible := True\<rparr>
         else searchFallbacks opts originalHSL rest st)"

definition searchStageList :: "search_options \<Rightarrow> hsl \<Rightarrow> search_stage list" where
  "searchStageList opts originalHSL = (case originalHSL of (originalH, originalS, originalL) \<Rightarrow>
     [\<lparr>hueRange = (if preserveHue opts then [originalH] else generateHueRange originalH 15),
       saturationRange = (if allowSaturationChange opts
                          then generateSmartSaturationRange originalS originalL else [originalS]),
       lightnessRange = generateSmartLightnessRange originalL (targetRatio opts)\<rparr>,
      \<lparr>hueRange = (if preserveHue opts then generateHueRange originalH 30
                   else generateHueRange originalH 45),
       saturationRange = (if allowSaturationChange opts
                          then generateSearchRange originalS 0 100 15 else [originalS]),
       lightnessRange = generateSearchRange originalL 0 100 5\<rparr>,
      \<lparr>hueRange = (if preserveHue opts then generateHueRange originalH 60
                   else generateSearchRange originalH 0 360 30),
       saturationRange = (if allowSaturationChange opts
                          then generateSearchRange originalS 0 100 20 else [originalS]),
       lightnessRange = generateSearchRange originalL 0 100 10\<rparr>])"

text \<open>
  The state of \<open>findAccessibleColor\<close> once the original colour has failed the target:
  after the stage loops, and after the loop over the fallback table where the best
  score is still below the target.
\<close>

definition stagedSearch :: "hsl \<Rightarrow> search_options \<Rightarrow> search_state" where
  "stagedSearch originalHSL opts = (case originalHSL of (originalH, originalS, originalL) \<Rightarrow>
     let st0 = \<lparr>bestColor = originalHSL,
                 bestScore = calculateAccessibilityScore originalHSL (textColor opts),
                 bestDistance = None, iterations = 0, foundAccessible = False\<rparr>;
         st1 = searchStages opts originalHSL (searchStageList opts originalHSL) st0
     in if bestScore st1 < targetRatio opts
        then searchFallbacks opts originalHSL
               (generateHuePreservingFallbacks originalH originalS) st1
        else st1)"

definition findAccessibleColor :: "hsl \<Rightarrow> search_options \<Rightarrow> hsl" where
  "findAccessibleColor originalHSL opts = (case originalHSL of (originalH, originalS, originalL) \<Rightarrow>
     if calculateAccessibilityScore originalHSL (textColor opts) \<ge> targetRatio opts
     then originalHSL
     else
       let st2 = stagedSearch originalHSL opts;
           lastColor = (if bestScore st2 < targetRatio opts
                        then getAccessibleColorForHueFamily (getHueFamily originalH)
                        else bestColor st2)
       in clampHSL lastColor)"

section \<open>ui-controller.js: the search under an accessibility mode\<close>

record color_data =
  cdBlackPassesNormal :: bool
  cdBlackPassesLarge :: bool
  cdWhitePassesNormal :: bool
  cdWhitePassesLarge :: bool

definition isColorAccessibleByMode :: "color_data \<Rightarrow> string \<Rightarrow> bool" where
  "isColorAccessibleByMode colorInfo accessibilityMode =
     (if accessibilityMode = ''full''
      then cdBlackPassesNormal colorInfo \<and> cdBlackPassesLarge colorInfo \<and>
           cdWhitePassesNormal colorInfo \<and> cdWhitePassesLarge colorInfo
      else if accessibilityMode = ''black-only''
      then cdBlackPassesNormal colorInfo \<and> cdBlackPassesLarge colorInfo
      else if accessibilityMode = ''white-only''
      then cdWhitePassesNormal colorInfo \<and> cdWhitePassesLarge colorInfo
      else False)"

text \<open>The \<open>generateSearchRange\<close> of \<open>ui-controller.js\<close>: the centre is clamped, no bounds are added.\<close>

definition generateSearchRange_ui :: "real \<Rightarrow> real \<Rightarrow> real \<Rightarrow> real \<Rightarrow> real list" where
  "generateSearchRange_ui center mn mx step =
     (let r = max mn (min mx center) #
              concat (map (\<lambda>i. (if center - i \<ge> mn then [center - i] else []) @
                                (if center + i \<le> mx then [center + i] else []))
                          (forSteps step (max (center - mn) (mx - center))))
      in sortByDistance center r)"

record search_ranges =
  lightnessValues :: "real list"
  saturationValues :: "real list"
  hueValues :: "real list"

text \<open>\<open>searchRanges[mode]\<close>: \<open>None\<close> for a mode that is neither \<open>'light'\<close> nor \<open>'dark'\<close>.\<close>

definition searchRanges :: "hsl \<Rightarrow> string \<Rightarrow> search_ranges option" where
  "searchRanges originalHSL mode = (case originalHSL of (originalH, originalS, originalL) \<Rightarrow>
     if mode = ''light'' then
       Some \<lparr>lightnessValues = [25, 30, 35, 40, 45, 50],
             saturationValues = generateSearchRange_ui originalS 20 90 10,
             hueValues = generateSearchRange_ui originalH 0 360 15\<rparr>
     else if mode = ''dark'' then
       Some \<lparr>lightnessValues = [60, 65, 70, 75, 80],
             saturationValues = generateSearchRange_ui originalS 30 80 10,
             hueValues = generateSearchRange_ui originalH 0 360 15\<rparr>
     else None)"

text \<open>The four flags of a candidate, as \<open>findFullyAccessibleColor\<close> collects them.\<close>

definition colorData :: "hsl \<Rightarrow> color_data" where
  "colorData candidateHSL =
     (let rgbv = hslToRgb candidateHSL;
          contrastInfo = getContrastInfo rgbv
      in \<lparr>cdBlackPassesNormal = passesNormal (black contrastInfo),
          cdBlackPassesLarge = passesLarge (black contrastInfo),
          cdWhitePassesNormal = passesNormal (white contrastInfo),
          cdWhitePassesLarge = passesLarge (white contrastInfo)\<rparr>)"

text \<open>
  The state of the search is the best colour so far (\<open>null\<close> at first) with its
  distance (\<open>Infinity\<close> at first): \<open>None\<close>, or the colour and the distance.
\<close>

type_synonym full_state = "(hsl \<times> real) option"

definition minDistanceOf :: "full_state \<Rightarrow> real option" where
  "minDistanceOf st = map_option snd st"

fun fullSaturation :: "hsl \<Rightarrow> string \<Rightarrow> real \<Rightarrow> real \<Rightarrow> real list \<Rightarrow> full_state \<Rightarrow> full_state" where
  "fullSaturation originalHSL accessibilityMode h l [] st = st"
| "fullSaturation originalHSL accessibilityMode h l (s # ss) st =
     (let candidateHSL = (h, s, l);
          fullyAccessible = isColorAccessibleByMode (colorData candidateHSL) accessibilityMode
      in if fullyAccessible then
           (let distance = calculateColorDistance originalHSL candidateHSL
            in if distLess distance (minDistanceOf st) then
                 (if distance < 30 then Some (candidateHSL, distance)
                  else fullSaturation originalHSL accessibilityMode h l ss (Some (candidateHSL, distance)))
               else fullSaturation originalHSL accessibilityMode h l ss st)
         else fullSaturation originalHSL accessibilityMode h l ss st)"

fun fullLightness ::
  "hsl \<Rightarrow> string \<Rightarrow> real \<Rightarrow> real list \<Rightarrow> real list \<Rightarrow> full_state \<Rightarrow> full_state" where
  "fullLightness originalHSL accessibilityMode h [] ss st = st"
| "fullLightness originalHSL accessibilityMode h (l # ls) ss st =
     (let st1 = fullSaturation originalHSL accessibilityMode h l ss st
      in if bestBelow (minDistanceOf st1) 30 then st1
         else fullLightness originalHSL accessibilityMode h ls ss st1)"

fun fullHue ::
  "hsl \<Rightarrow> string \<Rightarrow> real list \<Rightarrow> real list \<Rightarrow> real list \<Rightarrow> full_state \<Rightarrow> full_state" where
  "fullHue originalHSL accessibilityMode [] ls ss st = st"
| "fullHue originalHSL accessibilityMode (h # hs) ls ss st =
     (let st1 = fullLightness originalHSL accessibilityMode h ls ss st
      in if bestBelow (minDistanceOf st1) 30 then st1
         else fullHue originalHSL accessibilityMode hs ls ss st1)"

datatype js_error = TypeError

text \<open>
  The result is the colour found, \<open>None\<close> for \<open>null\<close>, or the \<open>TypeError\<close> that reading
  \<open>ranges.hue\<close> raises when \<open>mode\<close> names no entry of \<open>searchRanges\<close>.
\<close>

definition findFullyAccessibleColor :: "hsl \<Rightarrow> string \<Rightarrow> string \<Rightarrow> js_error + hsl option" where
  "findFullyAccessibleColor originalHSL mode accessibilityMode =
     (case searchRanges originalHSL mode of
        None \<Rightarrow> Inl TypeError
      | Some ranges \<Rightarrow>
          Inr (map_option fst
                 (fullHue originalHSL accessibilityMode (take 8 (hueValues ranges))
                    (lightnessValues ranges) (take 6 (saturationValues ranges)) None)))"

section \<open>The second copy of the colour utilities: CIEDE2000\<close>

text \<open>\<open>Math.atan2(y, x)\<close> on real numbers (there is no negative zero).\<close>

definition atan2 :: "real \<Rightarrow> real \<Rightarrow> real" where
  "atan2 y x =
     (if x > 0 then arctan (y / x)
      else if x < 0 then (if y \<ge> 0 then arctan (y / x) + pi else arctan (y / x) - pi)
      else if y > 0 then pi / 2
      else if y < 0 then - (pi / 2)
      else 0)"

definition calculateDeltaE :: "lab \<Rightarrow> lab \<Rightarrow> real" where
  "calculateDeltaE lab1 lab2 = (case lab1 of (L1, a1, b1) \<Rightarrow> case lab2 of (L2, a2, b2) \<Rightarrow>
     let C1 = sqrt (a1 * a1 + b1 * b1);
         C2 = sqrt (a2 * a2 + b2 * b2);
         meanC = (C1 + C2) / 2;
         G = 0.5 * (1 - sqrt (meanC ^ 7 / (meanC ^ 7 + 25 ^ 7)));
         a1p = a1 * (1 + G);
         a2p = a2 * (1 + G);
         C1p = sqrt (a1p * a1p + b1 * b1);
         C2p = sqrt (a2p * a2p + b2 * b2);
         h1p0 = atan2 b1 a1p * 180 / pi;
         h2p0 = atan2 b2 a2p * 180 / pi;
         h1p = (if h1p0 < 0 then h1p0 + 360 else h1p0);
         h2p = (if h2p0 < 0 then h2p0 + 360 else h2p0);
         deltaLp = L2 - L1;
         deltaCp = C2p - C1p;
         deltahp0 = h2p - h1p;
         deltahp = (if \<bar>deltahp0\<bar> > 180
                    then (if h2p > h1p then deltahp0 - 360 else deltahp0 + 360)
                    else deltahp0);
         deltaHp = 2 * sqrt (C1p * C2p) * sin (deltahp * pi / 360);
         meanLp = (L1 + L2) / 2;
         meanCp = (C1p + C2p) / 2;
         meanHp0 = (h1p + h2p) / 2;
         meanHp = (if \<bar>h1p - h2p\<bar> > 180
                   then (let m = meanHp0 + 180 in if m \<ge> 360 then m - 360 else m)
                   else meanHp0);
         T = 1 - 0.17 * cos ((meanHp - 30) * pi / 180) +
             0.24 * cos (2 * meanHp * pi / 180) +
             0.32 * cos ((3 * meanHp + 6) * pi / 180) -
             0.20 * cos ((4 * meanHp - 63) * pi / 180);
         SL = 1 + (0.015 * (meanLp - 50) ^ 2) / sqrt (20 + (meanLp - 50) ^ 2);
         SC = 1 + 0.045 * meanCp;
         SH = 1 + 0.015 * meanCp * T;
         RT = - 2 * sqrt (meanCp ^ 7 / (meanCp ^ 7 + 25 ^ 7)) *
              sin (60 * exp (- (((meanHp - 275) / 25) ^ 2)) * pi / 180)
     in sqrt ((deltaLp / SL) ^ 2 + (deltaCp / SC) ^ 2 + (deltaHp / SH) ^ 2 +
              RT * (deltaCp / SC) * (deltaHp / SH)))"

section \<open>Ranges\<close>

definition validHSL :: "hsl \<Rightarrow> bool" where
  "validHSL c = (case c of (h, s, l) \<Rightarrow>
     0 \<le> h \<and> h < 360 \<and> 0 \<le> s \<and> s \<le> 100 \<and> 0 \<le> l \<and> l \<le> 100)"

definition validRGB :: "rgb \<Rightarrow> bool" where
  "validRGB c = (case c of (r, g, b) \<Rightarrow>
     0 \<le> r \<and> r \<le> 255 \<and> 0 \<le> g \<and> g \<le> 255 \<and> 0 \<le> b \<and> b \<le> 255)"

section \<open>Auxiliary definitions\<close>

text \<open>
  The level that \<open>createDarkModeLevelMapping\<close> assigns to \<open>mapping[level]\<close> for the
  element \<open>(index, level)\<close> of the sorted level list, whichever branch assigns it.
\<close>

definition mirrorTarget :: "int list \<Rightarrow> nat \<times> int \<Rightarrow> int" where
  "mirrorTarget levels p =
     (let n = int (length levels); c = indexOf levels 400; index = fst p; lv = snd p
      in if c = - 1 then levels ! nat (n - 1 - int index)
         else if lv = 400 then 400
         else if int index < c then levels ! nat (min (n - 1) (c + (c - int index)))
         else levels ! nat (max 0 (c - (int index - c))))"


text \<open>
  An option set under which no colour can pass: white text only, a target ratio of 22
  (contrast ratios end at 21) and no iteration budget.
\<close>

definition unreachable_options :: search_options where
  "unreachable_options = \<lparr>targetRatio = 22, maxIterations = - 1, preserveHue = True,
     allowSaturationChange = True, textColor = ''white'', huePreservationWeight = 0.8\<rparr>"

text \<open>The invariant of the search under a mode: the best colour so far, if any, passes the mode.\<close>

definition accessibleState :: "string \<Rightarrow> full_state \<Rightarrow> bool" where
  "accessibleState accessibilityMode st =
     (case st of None \<Rightarrow> True
      | Some (c, d) \<Rightarrow> isColorAccessibleByMode (colorData c) accessibilityMode)"


text \<open>
  The share of \<open>q\<close> in the value of \<open>hue2rgb p q t\<close>, which is \<open>p + (q - p) * hueWeight t\<close>,
  and the two bounds \<open>q\<close> and \<open>p\<close> that \<open>hslToRgb\<close> computes from lightness and saturation
  (both as fractions of 1).
\<close>

definition hueWeight :: "real \<Rightarrow> real" where
  "hueWeight t0 =
     (let t1 = (if t0 < 0 then t0 + 1 else t0);
          t = (if t1 > 1 then t1 - 1 else t1)
      in if t < 1 / 6 then 6 * t
         else if t < 1 / 2 then 1
         else if t < 2 / 3 then (2 / 3 - t) * 6
         else 0)"

definition upperQ :: "real \<Rightarrow> real \<Rightarrow> real" where
  "upperQ l s = (if l < 1 / 2 then l * (1 + s) else l + s - l * s)"

definition lowerP :: "real \<Rightarrow> real \<Rightarrow> real" where
  "lowerP l s = 2 * l - upperQ l s"
section \<open>Clamping and ranges\<close>

lemma js_mod_nonneg:
  assumes "0 \<le> a" "0 < b"
  shows "0 \<le> js_mod a b \<and> js_mod a b < b"
proof -
  have q: "0 \<le> a / b" using assms by simp
  have t: "js_trunc (a / b) = \<lfloor>a / b\<rfloor>" using q by (simp add: js_trunc_def)
  have lo: "of_int \<lfloor>a / b\<rfloor> \<le> a / b" by (rule of_int_floor_le)
  have hi: "a / b < of_int \<lfloor>a / b\<rfloor> + 1" by linarith
  have "b * of_int \<lfloor>a / b\<rfloor> \<le> b * (a / b)"
    using lo assms(2) by (intro mult_left_mono) simp_all
  then have "b * of_int \<lfloor>a / b\<rfloor> \<le> a" using assms(2) by simp
  moreover have "b * (a / b) < b * (of_int \<lfloor>a / b\<rfloor> + 1)"
    using hi assms(2) by (intro mult_strict_left_mono) simp_all
  then have "a < b * (of_int \<lfloor>a / b\<rfloor> + 1)" using assms(2) by simp
  ultimately show ?thesis by (simp add: js_mod_def t algebra_simps)
qed

lemma js_mod_gt_neg:
  assumes "0 < b"
  shows "- b < js_mod a b"
proof (cases "0 \<le> a")
  case True
  then show ?thesis using js_mod_nonneg[OF True assms] assms by linarith
next
  case False
  then have na: "0 \<le> - a" by simp
  have "a / b < 0" using False assms by (simp add: divide_neg_pos)
  then have t: "js_trunc (a / b) = - \<lfloor>(- a) / b\<rfloor>" by (simp add: js_trunc_def)
  have "js_mod a b = - js_mod (- a) b"
    by (simp add: js_mod_def t js_trunc_def na assms less_imp_le algebra_simps)
  then show ?thesis using js_mod_nonneg[OF na assms] by linarith
qed

lemma clampHSL_valid: "validHSL (clampHSL c)"
proof -
  obtain h s l where c: "c = (h, s, l)" by (cases c)
  have "0 \<le> js_mod h 360 + 360" using js_mod_gt_neg[of 360 h] by simp
  then have "0 \<le> js_mod (js_mod h 360 + 360) 360 \<and> js_mod (js_mod h 360 + 360) 360 < 360"
    by (intro js_mod_nonneg) simp_all
  then show ?thesis by (simp add: c clampHSL_def validHSL_def)
qed

lemma js_round_bounds:
  assumes "real_of_int a \<le> x" "x \<le> real_of_int b"
  shows "a \<le> js_round x \<and> js_round x \<le> b"
  unfolding js_round_def using assms by (auto simp: le_floor_iff floor_le_iff)

section \<open>The generated scale\<close>

lemma calculateNeutralHSL_valid:
  assumes "validHSL c"
  shows "validHSL (calculateNeutralHSL c lv)"
proof -
  obtain h s l where c: "c = (h, s, l)" by (cases c)
  define x where "x = (if lv < 400 then l + (95 - l) * (real_of_int (400 - lv) / 350)
                       else l - (l - 28) * (real_of_int (lv - 400) / 400))"
  define k where "k = js_round (max 28 (min 95 x))"
  have "real_of_int 28 \<le> max 28 (min 95 x)" "max 28 (min 95 x) \<le> real_of_int 95" by simp_all
  from js_round_bounds[OF this] have "28 \<le> k" "k \<le> 95" by (simp_all add: k_def)
  then have "0 \<le> k" "k \<le> 100" by linarith+
  then have "(0::real) \<le> of_int k" "real_of_int k \<le> 100" by simp_all
  then show ?thesis using assms
    by (auto simp: c calculateNeutralHSL_def validHSL_def Let_def x_def k_def)
qed

lemma calculateNonNeutralHSL_valid: "validHSL (calculateNonNeutralHSL c lv)"
  by (cases c) (simp add: calculateNonNeutralHSL_def Let_def split_beta clampHSL_valid)

lemma calculateHSL_valid: "validHSL c \<Longrightarrow> validHSL (calculateHSL c lv)"
  by (simp add: calculateHSL_def calculateNeutralHSL_valid calculateNonNeutralHSL_valid)

lemma level_colorObject [simp]: "level (colorObject lv c b) = lv"
  by (simp add: colorObject_def Let_def)

lemma hsl_colorObject [simp]: "hsl (colorObject lv c b) = c"
  by (simp add: colorObject_def Let_def)

lemma rgb_colorObject [simp]: "rgb (colorObject lv c b) = hslToRgb c"
  by (simp add: colorObject_def Let_def)

lemma hex_colorObject [simp]: "hex (colorObject lv c b) = hslToHex c"
  by (simp add: colorObject_def Let_def)

lemma configuration_has_400:
  "SCALE_CONFIGURATIONS configuration = Some levels \<Longrightarrow> 400 \<in> set levels"
  by (auto simp: SCALE_CONFIGURATIONS_def split: if_splits)

lemma configuration_base:
  "SCALE_CONFIGURATIONS configuration = Some levels \<Longrightarrow>
   getBaseLevelForConfiguration levels = Some 400"
  by (simp add: getBaseLevelForConfiguration_def configuration_has_400)

lemma createColorScale_recognized:
  assumes "SCALE_CONFIGURATIONS configuration = Some levels"
  shows "createColorScale baseHSL configuration =
           Inr (map (\<lambda>lv. colorObject lv
                       (if lv = 400 then clampHSL baseHSL else calculateHSL (clampHSL baseHSL) lv)
                       (lv = 400)) levels)"
  using assms by (simp add: createColorScale_def configuration_base Let_def)

lemma chromatic_levels:
  "SCALE_CONFIGURATIONS ''chromatic'' = Some [50, 100, 200, 300, 400, 500, 600, 700, 800]"
  by (simp add: SCALE_CONFIGURATIONS_def)

lemma diatonic_levels:
  "SCALE_CONFIGURATIONS ''diatonic'' = Some [100, 200, 300, 400, 500, 600, 700]"
  by (simp add: SCALE_CONFIGURATIONS_def)

text \<open>
  Claim C1. For every input colour and every recognized configuration, the scale has a
  swatch at the configuration's base level, and the HSL value of every swatch at that
  level is exactly \<open>clampHSL\<close> of the input.
\<close>

theorem base_swatch_equals_clamped_input:
  assumes "SCALE_CONFIGURATIONS configuration = Some levels"
  shows "\<exists>scale base. createColorScale baseHSL configuration = Inr scale
           \<and> getBaseLevelForConfiguration levels = Some base
           \<and> (\<exists>sw \<in> set scale. level sw = base)
           \<and> (\<forall>sw \<in> set scale. level sw = base \<longrightarrow> hsl sw = clampHSL baseHSL)"
  using assms configuration_has_400[OF assms]
  by (auto simp: createColorScale_recognized configuration_base image_iff)

theorem base_swatch_equals_clamped_input_witness:
  "SCALE_CONFIGURATIONS ''chromatic'' = Some [50, 100, 200, 300, 400, 500, 600, 700, 800]
   \<and> (\<exists>scale base. createColorScale (562, 57, 120) ''chromatic'' = Inr scale
           \<and> getBaseLevelForConfiguration [50, 100, 200, 300, 400, 500, 600, 700, 800] = Some base
           \<and> (\<exists>sw \<in> set scale. level sw = base)
           \<and> (\<forall>sw \<in> set scale. level sw = base \<longrightarrow> hsl sw = (202, 57, 100)))"
proof -
  have cl: "clampHSL (562, 57, 120) = (202, 57, 100)"
    by (simp add: clampHSL_def js_mod_def js_trunc_def)
  show ?thesis
    using base_swatch_equals_clamped_input[OF chromatic_levels, of "(562, 57, 120)"]
      chromatic_levels by (simp only: cl)
qed

text \<open>
  Claim C10. For every input colour and every recognized configuration, the scale has
  exactly one swatch per configured level, in the listed order, and the HSL value of
  every swatch is in range: hue in [0, 360), saturation and lightness in [0, 100]. The
  neutral branch needs no clamp of its own: it keeps the clamped base hue, lowers the
  clamped base saturation by at most 2 (not below 0), and rounds a lightness that it has
  confined to [28, 95].
\<close>

theorem scale_levels_and_ranges:
  assumes "SCALE_CONFIGURATIONS configuration = Some levels"
  shows "\<exists>scale. createColorScale baseHSL configuration = Inr scale
           \<and> map level scale = levels
           \<and> (\<forall>sw \<in> set scale. validHSL (hsl sw))"
  using assms
  by (auto simp: createColorScale_recognized o_def calculateHSL_valid clampHSL_valid)

theorem scale_levels_and_ranges_witness:
  "SCALE_CONFIGURATIONS ''diatonic'' = Some [100, 200, 300, 400, 500, 600, 700]
   \<and> (\<exists>scale. createColorScale (0, 5, 50) ''diatonic'' = Inr scale
           \<and> map level scale = [100, 200, 300, 400, 500, 600, 700]
           \<and> (\<forall>sw \<in> set scale. validHSL (hsl sw)))"
  using scale_levels_and_ranges[OF diatonic_levels, of "(0, 5, 50)"] diatonic_levels
  by simp

lemma createColorScale_levels:
  assumes "SCALE_CONFIGURATIONS configuration = Some levels"
  shows "\<exists>scale. createColorScale baseHSL configuration = Inr scale \<and> map level scale = levels"
  using assms by (simp add: createColorScale_recognized o_def)


section \<open>The neutral threshold\<close>

lemma isNeutralColor_iff: "isNeutralColor (h, s, l) \<longleftrightarrow> s < 10"
  by (simp add: isNeutralColor_def)

lemma isNeutralColor_updated_iff: "isNeutralColor_updated (h, s, l) \<longleftrightarrow> s < 15"
  by (simp add: isNeutralColor_updated_def)

text \<open>
  Claim C5. The neutrality test should hold exactly when the saturation is below 15. The
  copy of \<open>isNeutralColor\<close> in \<open>js/color-utils.js\<close> still tests against 10: the
  colour \<open>[0, 12, 50]\<close>, of saturation 12, is not neutral for it, while the updated copy
  (threshold 15) classifies it as neutral.
\<close>

theorem isNeutralColor_saturation_12:
  "\<not> isNeutralColor (0, 12, 50) \<and> isNeutralColor_updated (0, 12, 50) \<and> (12 :: real) < 15"
  by (simp add: isNeutralColor_def isNeutralColor_updated_def)

section \<open>The dark-mode level mapping\<close>

lemma indexOf_bounds: "- 1 \<le> indexOf xs x \<and> indexOf xs x < int (length xs)"
  by (induction xs) (auto simp: Let_def)

lemma fold_upd_dom:
  "dom (fold (\<lambda>p m. m(snd p \<mapsto> g p)) ps m0) = dom m0 \<union> snd ` set ps"
  by (induction ps arbitrary: m0) auto

lemma ran_upd_subset: "ran (m(k \<mapsto> v)) \<subseteq> insert v (ran m)"
  unfolding ran_def by auto

lemma fold_upd_ran:
  assumes "\<And>p. p \<in> set ps \<Longrightarrow> g p \<in> V" and "ran m0 \<subseteq> V"
  shows "ran (fold (\<lambda>p m. m(snd p \<mapsto> g p)) ps m0) \<subseteq> V"
  using assms
proof (induction ps arbitrary: m0)
  case Nil
  then show ?case by simp
next
  case (Cons p ps)
  have "g p \<in> V" using Cons.prems(1)[of p] by simp
  then have r: "ran (m0(snd p \<mapsto> g p)) \<subseteq> V"
    using Cons.prems(2) ran_upd_subset[of m0 "snd p" "g p"] by blast
  have "ran (fold (\<lambda>p m. m(snd p \<mapsto> g p)) ps (m0(snd p \<mapsto> g p))) \<subseteq> V"
  proof (rule Cons.IH)
    fix q assume "q \<in> set ps"
    then show "g q \<in> V" using Cons.prems(1)[of q] by simp
  qed (rule r)
  then show ?case by (simp only: fold.simps o_apply)
qed

lemma createDarkModeLevelMapping_fold:
  "createDarkModeLevelMapping sc =
     fold (\<lambda>p m. m(snd p \<mapsto> mirrorTarget (sort (map level sc)) p))
          (enumerate 0 (sort (map level sc))) Map.empty"
proof (cases "indexOf (sort (map level sc)) 400 = - 1")
  case True
  show ?thesis
    unfolding createDarkModeLevelMapping_def mirrorTarget_def Let_def
    apply (simp only: True simp_thms if_True)
    apply (rule fold_cong)
      apply (rule refl)
     apply (rule refl)
    apply (simp add: split_beta)
    done
next
  case False
  show ?thesis
    unfolding createDarkModeLevelMapping_def mirrorTarget_def Let_def
    apply (simp only: False if_False)
    apply (rule fold_cong)
      apply (rule refl)
     apply (rule refl)
    apply (auto simp: split_beta fun_eq_iff)
    done
qed

lemma mapping_dom: "dom (createDarkModeLevelMapping sc) = set (map level sc)"
proof -
  have "snd ` set (enumerate 0 (sort (map level sc))) = set (sort (map level sc))"
    using map_snd_enumerate[of 0 "sort (map level sc)"] by (metis list.set_map)
  then show ?thesis by (simp add: createDarkModeLevelMapping_fold fold_upd_dom)
qed

lemma mapping_ran: "ran (createDarkModeLevelMapping sc) \<subseteq> set (map level sc)"
proof -
  define levels where "levels = sort (map level sc)"
  define n where "n = int (length levels)"
  define c where "c = indexOf levels 400"
  have cb: "- 1 \<le> c" "c < n" using indexOf_bounds[of levels 400] by (simp_all add: c_def n_def)
  have idx: "levels ! nat i \<in> set levels" if "0 \<le> i" "i < n" for i
    using that by (simp add: n_def)
  have "ran (fold (\<lambda>p m. m(snd p \<mapsto> mirrorTarget levels p)) (enumerate 0 levels) Map.empty)
          \<subseteq> set levels"
  proof (rule fold_upd_ran)
    fix p assume p: "p \<in> set (enumerate 0 levels)"
    then have e: "fst p < length levels" "levels ! fst p = snd p"
      by (auto simp: in_set_enumerate_eq)
    have pm: "int (fst p) < n" "snd p \<in> set levels" "0 \<le> int (fst p)"
      using e nth_mem[of "fst p" levels] by (simp_all add: n_def)
    show "mirrorTarget levels p \<in> set levels"
    proof (cases "c = - 1")
      case True
      have "levels ! nat (n - 1 - int (fst p)) \<in> set levels" using pm by (intro idx) linarith+
      then show ?thesis using True by (simp add: mirrorTarget_def Let_def c_def n_def)
    next
      case False
      then have c0: "0 \<le> c" using cb by linarith
      have a: "levels ! nat (min (n - 1) (c + (c - int (fst p)))) \<in> set levels" if "int (fst p) < c"
        using pm c0 cb that by (intro idx) linarith+
      have b: "levels ! nat (max 0 (c - (int (fst p) - c))) \<in> set levels" if "\<not> int (fst p) < c"
        using pm c0 cb that by (intro idx) linarith+
      show ?thesis using False a b pm(2)
        by (auto simp: mirrorTarget_def Let_def c_def[symmetric] n_def[symmetric])
    qed
  qed simp
  then show ?thesis by (simp add: createDarkModeLevelMapping_fold levels_def)
qed

lemma find_level_Some:
  assumes "t \<in> set (map level sc)"
  shows "\<exists>tc. find (\<lambda>c. level c = t) sc = Some tc \<and> level tc = t"
  using assms by (induction sc) auto

lemma clamp_scenarioA: "clampHSL (202, 57, 50) = (202, 57, 50)"
  by (simp add: clampHSL_def js_mod_def js_trunc_def)

lemma diatonic_scenarioA:
  "scaleOf (createColorScale (202, 57, 50) ''diatonic'') =
     map (\<lambda>lv. colorObject lv
                 (if lv = 400 then (202, 57, 50) else calculateHSL (202, 57, 50) lv)
                 (lv = 400)) [100, 200, 300, 400, 500, 600, 700]"
  by (simp add: scaleOf_def createColorScale_recognized[OF diatonic_levels] clamp_scenarioA)

lemma diatonic_scenarioA_levels:
  "map level (scaleOf (createColorScale (202, 57, 50) ''diatonic'')) = [100, 200, 300, 400, 500, 600, 700]"
  by (simp add: diatonic_scenarioA)

lemma diatonic_mapping_value:
  assumes "map level lightModeScale = [100, 200, 300, 400, 500, 600, 700]"
  shows "createDarkModeLevelMapping lightModeScale =
           [100 \<mapsto> 700, 200 \<mapsto> 600, 300 \<mapsto> 500, 400 \<mapsto> 400, 500 \<mapsto> 300, 600 \<mapsto> 200, 700 \<mapsto> 100]"
  by (simp add: createDarkModeLevelMapping_def assms Let_def enumerate_eq_zip upt_rec)

text \<open>
  Claim C7. For a scale over the levels 100, 200, ..., 700 the dark-mode mapping is
  exactly 100 to 700, 200 to 600, 300 to 500, 400 to 400, 500 to 300, 600 to 200 and
  700 to 100, and applying it twice gives back every level of the scale.
\<close>

theorem diatonic_mirror_mapping:
  assumes "map level lightModeScale = [100, 200, 300, 400, 500, 600, 700]"
  shows "createDarkModeLevelMapping lightModeScale =
           [100 \<mapsto> 700, 200 \<mapsto> 600, 300 \<mapsto> 500, 400 \<mapsto> 400, 500 \<mapsto> 300, 600 \<mapsto> 200, 700 \<mapsto> 100]
         \<and> (\<forall>x \<in> set (map level lightModeScale).
               \<exists>y. createDarkModeLevelMapping lightModeScale x = Some y
                 \<and> createDarkModeLevelMapping lightModeScale y = Some x)"
  unfolding diatonic_mapping_value[OF assms] by (simp add: assms)

theorem diatonic_mirror_mapping_witness:
  "map level (scaleOf (createColorScale (202, 57, 50) ''diatonic'')) = [100, 200, 300, 400, 500, 600, 700]
   \<and> createDarkModeLevelMapping (scaleOf (createColorScale (202, 57, 50) ''diatonic'')) =
           [100 \<mapsto> 700, 200 \<mapsto> 600, 300 \<mapsto> 500, 400 \<mapsto> 400, 500 \<mapsto> 300, 600 \<mapsto> 200, 700 \<mapsto> 100]"
  by (intro conjI diatonic_scenarioA_levels
      diatonic_mirror_mapping[OF diatonic_scenarioA_levels, THEN conjunct1])

section \<open>The dark scale\<close>

lemma level700_scenarioA: "calculateHSL (202, 57, 50) 700 = (202, 81, 61 / 2)"
  by (simp add: calculateHSL_def isNeutralColor_def calculateNonNeutralHSL_def
      calculateDynamicBoundaries_def getLevelAdjustments_def Let_def clampHSL_def
      js_mod_def js_trunc_def)

lemma adjust_scenarioA:
  "applyDarkModeAdjustments (202, 81, 61 / 2) 100 default_dark_options = (202, 86, 143 / 2)"
  by (simp add: applyDarkModeAdjustments_def isNeutralColor_def default_dark_options_def
      Let_def clampHSL_def js_mod_def js_trunc_def)

text \<open>
  Claim C3, as the code has it. Every element of the dark scale is computed (the mapping
  is defined at its level), keeps its level, and has RGB and hex values derived from its
  HSL value. At level 400 the HSL value is the dark base colour that the caller chose,
  unchanged. At every other level the light scale always has a swatch at the mapped
  level (the fallback to the generator is never taken), and the HSL value is that
  swatch's HSL value after \<open>applyDarkModeAdjustments\<close>: saturation boost, lightness
  floor or ceiling, contrast factor and clamp.
\<close>

theorem dark_scale_mirrors_then_adjusts:
  assumes "i < length lightModeScale"
  shows "\<exists>d t tc. generateDarkModeScale lightModeScale baseHSL options ! i = Some d
           \<and> createDarkModeLevelMapping lightModeScale (level (lightModeScale ! i)) = Some t
           \<and> find (\<lambda>c. level c = t) lightModeScale = Some tc
           \<and> level d = level (lightModeScale ! i)
           \<and> rgb d = hslToRgb (hsl d) \<and> hex d = hslToHex (hsl d)
           \<and> (level (lightModeScale ! i) = 400 \<longrightarrow> hsl d = darkModeBase options baseHSL)
           \<and> (level (lightModeScale ! i) \<noteq> 400 \<longrightarrow>
                 hsl d = applyDarkModeAdjustments (hsl tc) (level (lightModeScale ! i)) options)"
proof -
  define lv where "lv = level (lightModeScale ! i)"
  have "lv \<in> set (map level lightModeScale)" using assms by (simp add: lv_def)
  then have "lv \<in> dom (createDarkModeLevelMapping lightModeScale)" by (simp only: mapping_dom)
  then obtain t where t: "createDarkModeLevelMapping lightModeScale lv = Some t" by blast
  then have "t \<in> ran (createDarkModeLevelMapping lightModeScale)" by (auto simp: ran_def)
  then have "t \<in> set (map level lightModeScale)" using mapping_ran by blast
  then obtain tc where tc: "find (\<lambda>c. level c = t) lightModeScale = Some tc"
    using find_level_Some by blast
  show ?thesis
    using assms t tc
    by (simp add: generateDarkModeScale_def darkColor_def Let_def lv_def[symmetric])
qed

theorem dark_scale_mirrors_then_adjusts_witness:
  "(0::nat) < length (scaleOf (createColorScale (202, 57, 50) ''diatonic''))
   \<and> (\<exists>d t tc. generateDarkModeScale (scaleOf (createColorScale (202, 57, 50) ''diatonic''))
                  (202, 57, 50) default_dark_options ! 0 = Some d
           \<and> createDarkModeLevelMapping (scaleOf (createColorScale (202, 57, 50) ''diatonic'')) 100 = Some t
           \<and> find (\<lambda>c. level c = t) (scaleOf (createColorScale (202, 57, 50) ''diatonic'')) = Some tc
           \<and> level d = 100
           \<and> hsl d = applyDarkModeAdjustments (hsl tc) 100 default_dark_options)"
proof -
  define sc where "sc = scaleOf (createColorScale (202, 57, 50) ''diatonic'')"
  have len: "0 < length sc" and l0: "level (sc ! 0) = 100"
    by (simp_all add: sc_def diatonic_scenarioA)
  obtain d t tc where
    "generateDarkModeScale sc (202, 57, 50) default_dark_options ! 0 = Some d"
    "createDarkModeLevelMapping sc (level (sc ! 0)) = Some t"
    "find (\<lambda>c. level c = t) sc = Some tc"
    "level d = level (sc ! 0)"
    "level (sc ! 0) \<noteq> 400 \<longrightarrow> hsl d = applyDarkModeAdjustments (hsl tc) (level (sc ! 0)) default_dark_options"
    using dark_scale_mirrors_then_adjusts[OF len, of "(202, 57, 50)" default_dark_options]
    by blast
  then have "generateDarkModeScale sc (202, 57, 50) default_dark_options ! 0 = Some d
           \<and> createDarkModeLevelMapping sc 100 = Some t
           \<and> find (\<lambda>c. level c = t) sc = Some tc
           \<and> level d = 100
           \<and> hsl d = applyDarkModeAdjustments (hsl tc) 100 default_dark_options"
    by (simp add: l0)
  then show ?thesis unfolding sc_def[symmetric] using len by blast
qed

text \<open>
  The dark swatch is not a copy of the mirrored light swatch: in the seven-level scale
  of \<open>hsl(202, 57, 50)\<close>, level 100 maps to level 700, whose light swatch is
  \<open>(202, 81, 30.5)\<close>, but the dark swatch at level 100 is \<open>(202, 86, 71.5)\<close>.
\<close>

theorem dark_scale_not_pure_mirror:
  "createColorScale (202, 57, 50) ''diatonic'' = Inr (scaleOf (createColorScale (202, 57, 50) ''diatonic''))
   \<and> level (scaleOf (createColorScale (202, 57, 50) ''diatonic'') ! 0) = 100
   \<and> createDarkModeLevelMapping (scaleOf (createColorScale (202, 57, 50) ''diatonic'')) 100 = Some 700
   \<and> level (scaleOf (createColorScale (202, 57, 50) ''diatonic'') ! 6) = 700
   \<and> hsl (scaleOf (createColorScale (202, 57, 50) ''diatonic'') ! 6) = (202, 81, 61 / 2)
   \<and> map_option level (generateDarkModeScale (scaleOf (createColorScale (202, 57, 50) ''diatonic''))
        (202, 57, 50) default_dark_options ! 0) = Some 100
   \<and> map_option hsl (generateDarkModeScale (scaleOf (createColorScale (202, 57, 50) ''diatonic''))
        (202, 57, 50) default_dark_options ! 0) = Some (202, 86, 143 / 2)
   \<and> map_option hsl (generateDarkModeScale (scaleOf (createColorScale (202, 57, 50) ''diatonic''))
        (202, 57, 50) default_dark_options ! 0)
       \<noteq> Some (hsl (scaleOf (createColorScale (202, 57, 50) ''diatonic'') ! 6))"
proof -
  define sc where "sc = scaleOf (createColorScale (202, 57, 50) ''diatonic'')"
  have sc: "sc = map (\<lambda>lv. colorObject lv
                       (if lv = 400 then (202, 57, 50) else calculateHSL (202, 57, 50) lv)
                       (lv = 400)) [100, 200, 300, 400, 500, 600, 700]"
    by (simp only: sc_def diatonic_scenarioA)
  have r: "createColorScale (202, 57, 50) ''diatonic'' = Inr sc"
    by (simp add: sc_def scaleOf_def createColorScale_recognized[OF diatonic_levels])
  have lv: "map level sc = [100, 200, 300, 400, 500, 600, 700]"
    by (simp only: sc_def diatonic_scenarioA_levels)
  have m: "createDarkModeLevelMapping sc 100 = Some 700"
    by (simp add: diatonic_mapping_value[OF lv])
  have l0: "level (sc ! 0) = 100" and l6: "level (sc ! 6) = 700" by (simp_all add: sc)
  have h6: "hsl (sc ! 6) = (202, 81, 61 / 2)" by (simp add: sc level700_scenarioA)
  have f: "find (\<lambda>c. level c = 700) sc = Some (sc ! 6)" by (simp add: sc)
  have d: "generateDarkModeScale sc (202, 57, 50) default_dark_options ! 0
           = darkColor sc (202, 57, 50) default_dark_options (createDarkModeLevelMapping sc) (sc ! 0)"
  proof -
    have "0 < length sc" by (simp add: sc)
    then show ?thesis
      by (simp add: generateDarkModeScale_def Let_def darkModeBase_def default_dark_options_def)
  qed
  have dl: "map_option level (generateDarkModeScale sc (202, 57, 50) default_dark_options ! 0) = Some 100"
    unfolding d by (simp add: darkColor_def l0 m Let_def)
  have dh: "map_option hsl (generateDarkModeScale sc (202, 57, 50) default_dark_options ! 0)
            = Some (202, 86, 143 / 2)"
    unfolding d by (simp add: darkColor_def l0 m f h6 adjust_scenarioA Let_def)
  have ne: "map_option hsl (generateDarkModeScale sc (202, 57, 50) default_dark_options ! 0)
            \<noteq> Some (hsl (sc ! 6))"
    unfolding dh h6 by simp
  show ?thesis unfolding sc_def[symmetric] using r l0 m l6 h6 dl dh ne by blast
qed

section \<open>The contrast ratio\<close>

lemma linearize_range:
  assumes "0 \<le> c" "c \<le> 255"
  shows "0 \<le> linearize c \<and> linearize c \<le> 1"
proof -
  define v where "v = real_of_int c / 255"
  have v: "0 \<le> v" "v \<le> 1" using assms by (simp_all add: v_def)
  show ?thesis
  proof (cases "v \<le> 0.03928")
    case True
    then have "linearize c = v / 12.92" by (simp add: linearize_def v_def)
    then show ?thesis using v True by simp
  next
    case False
    then have l: "linearize c = ((v + 0.055) / 1.055) powr 2.4" by (simp add: linearize_def v_def)
    have b: "0 \<le> (v + 0.055) / 1.055" "(v + 0.055) / 1.055 \<le> 1" using v by simp_all
    have "((v + 0.055) / 1.055) powr 2.4 \<le> 1 powr 2.4"
      using b by (intro powr_mono2) simp_all
    then show ?thesis unfolding l by simp
  qed
qed

lemma linearize_0: "linearize 0 = 0"
  by (simp add: linearize_def)

lemma linearize_255: "linearize 255 = 1"
  by (simp add: linearize_def)

lemma luminance_black: "calculateLuminance blackRgb = 0"
  by (simp add: calculateLuminance_def blackRgb_def linearize_0)

lemma luminance_white: "calculateLuminance whiteRgb = 1"
  by (simp add: calculateLuminance_def whiteRgb_def linearize_255)

lemma luminance_range:
  assumes "validRGB c"
  shows "0 \<le> calculateLuminance c \<and> calculateLuminance c \<le> 1"
proof -
  obtain r g b where c: "c = (r, g, b)" by (cases c)
  have "0 \<le> linearize r \<and> linearize r \<le> 1" "0 \<le> linearize g \<and> linearize g \<le> 1"
    "0 \<le> linearize b \<and> linearize b \<le> 1"
    using assms by (simp_all add: c validRGB_def linearize_range)
  then show ?thesis by (simp add: c calculateLuminance_def)
qed

lemma getContrastRatio_commute: "getContrastRatio a b = getContrastRatio b a"
  by (simp add: getContrastRatio_def Let_def max.commute min.commute)

lemma getContrastRatio_range:
  assumes "validRGB a" "validRGB b"
  shows "1 \<le> getContrastRatio a b \<and> getContrastRatio a b \<le> 21"
proof -
  define hi where "hi = max (calculateLuminance a) (calculateLuminance b)"
  define lo where "lo = min (calculateLuminance a) (calculateLuminance b)"
  have b: "0 \<le> lo" "lo \<le> hi" "hi \<le> 1"
    using luminance_range[OF assms(1)] luminance_range[OF assms(2)] by (simp_all add: hi_def lo_def)
  define r where "r = (hi + 0.05) / (lo + 0.05)"
  have "1 \<le> r" using b by (simp add: r_def)
  moreover have "r \<le> 21"
  proof -
    have "hi + 0.05 \<le> 21 * (lo + 0.05)" using b by simp
    then show ?thesis using b by (simp add: r_def pos_divide_le_eq)
  qed
  ultimately have "real_of_int 100 \<le> r * 100" "r * 100 \<le> real_of_int 2100" by simp_all
  from js_round_bounds[OF this] have "100 \<le> js_round (r * 100)" "js_round (r * 100) \<le> 2100"
    by simp_all
  then have "(100::real) \<le> of_int (js_round (r * 100))" "real_of_int (js_round (r * 100)) \<le> 2100"
    by linarith+
  moreover have "getContrastRatio a b = of_int (js_round (r * 100)) / 100"
    by (simp only: getContrastRatio_def Let_def r_def hi_def lo_def)
  ultimately show ?thesis by simp
qed

lemma getContrastRatio_self:
  assumes "validRGB x"
  shows "getContrastRatio x x = 1"
proof -
  have "0 \<le> calculateLuminance x" using luminance_range[OF assms] by simp
  then have one: "(calculateLuminance x + 0.05) / (calculateLuminance x + 0.05) = 1" by simp
  have "getContrastRatio x x = of_int (js_round (1 * 100)) / 100"
    by (simp only: getContrastRatio_def Let_def max.idem min.idem one)
  then show ?thesis by (simp add: js_round_def)
qed

lemma getContrastRatio_black_white: "getContrastRatio blackRgb whiteRgb = 21"
  by (simp add: getContrastRatio_def Let_def luminance_black luminance_white js_round_def)

text \<open>
  Claim C6. For RGB triples with channels between 0 and 255 the contrast ratio (which
  the code rounds to two decimals) is symmetric, is 1 for a colour against itself, is
  21 for black against white, and always lies between 1 and 21.
\<close>

theorem contrast_ratio_properties:
  assumes "validRGB a" "validRGB b" "validRGB x"
  shows "getContrastRatio a b = getContrastRatio b a
       \<and> getContrastRatio x x = 1
       \<and> getContrastRatio blackRgb whiteRgb = 21
       \<and> 1 \<le> getContrastRatio a b \<and> getContrastRatio a b \<le> 21"
  using getContrastRatio_commute[of a b] getContrastRatio_self[OF assms(3)]
    getContrastRatio_black_white getContrastRatio_range[OF assms(1,2)]
  by simp

theorem contrast_ratio_properties_witness:
  "validRGB (0, 0, 0) \<and> validRGB (255, 255, 255) \<and> validRGB (55, 145, 198)
   \<and> getContrastRatio (0, 0, 0) (255, 255, 255) = getContrastRatio (255, 255, 255) (0, 0, 0)
   \<and> getContrastRatio (55, 145, 198) (55, 145, 198) = 1
   \<and> getContrastRatio blackRgb whiteRgb = 21
   \<and> 1 \<le> getContrastRatio (0, 0, 0) (255, 255, 255)
   \<and> getContrastRatio (0, 0, 0) (255, 255, 255) \<le> 21"
proof -
  have v: "validRGB (0, 0, 0)" "validRGB (255, 255, 255)" "validRGB (55, 145, 198)"
    by (simp_all add: validRGB_def)
  from contrast_ratio_properties[OF v] v show ?thesis by blast
qed

section \<open>The plain search for an accessible colour\<close>

lemma js_mod_small:
  assumes "0 \<le> a" "a < b"
  shows "js_mod a b = a"
proof -
  have "0 \<le> a / b" "a / b < 1" using assms by simp_all
  then have "\<lfloor>a / b\<rfloor> = 0" by linarith
  then show ?thesis using assms by (simp add: js_mod_def js_trunc_def)
qed

lemma js_mod_shift:
  assumes "0 \<le> a" "a < b"
  shows "js_mod (a + b) b = a"
proof -
  have b: "0 < b" using assms by linarith
  have "(a + b) / b = a / b + 1" using b by (simp add: field_simps)
  moreover have "0 \<le> a / b" "a / b < 1" using assms b by simp_all
  ultimately have "\<lfloor>(a + b) / b\<rfloor> = 1" by linarith
  moreover have "0 \<le> (a + b) / b" using assms b by simp
  ultimately show ?thesis by (simp add: js_mod_def js_trunc_def)
qed

lemma clampHSL_id:
  assumes "validHSL c"
  shows "clampHSL c = c"
proof -
  obtain h s l where c: "c = (h, s, l)" by (cases c)
  have h: "0 \<le> h" "h < 360" and sl: "0 \<le> s" "s \<le> 100" "0 \<le> l" "l \<le> 100"
    using assms by (simp_all add: c validHSL_def)
  have "js_mod (js_mod h 360 + 360) 360 = h"
    using js_mod_small[OF h] js_mod_shift[OF h] by simp
  then show ?thesis using sl by (simp add: c clampHSL_def)
qed

lemma family_color_valid: "validHSL (getAccessibleColorForHueFamily f)"
  by (simp add: getAccessibleColorForHueFamily_def validHSL_def)


lemma hue2rgb_between:
  assumes "p \<le> q" "- 1 \<le> t" "t \<le> 2"
  shows "p \<le> hue2rgb p q t \<and> hue2rgb p q t \<le> q"
proof -
  define u where "u = (let t1 = (if t < 0 then t + 1 else t) in if t1 > 1 then t1 - 1 else t1)"
  have u: "0 \<le> u" "u \<le> 1" using assms(2,3) by (auto simp: u_def Let_def)
  have d: "0 \<le> q - p" using assms(1) by simp
  have h: "hue2rgb p q t = (if u < 1 / 6 then p + (q - p) * 6 * u
         else if u < 1 / 2 then q
         else if u < 2 / 3 then p + (q - p) * (2 / 3 - u) * 6
         else p)"
    by (simp add: hue2rgb_def u_def Let_def)
  show ?thesis
  proof (cases "u < 1 / 6")
    case True
    have "0 \<le> (q - p) * (6 * u)" using d u by simp
    moreover have "(q - p) * (6 * u) \<le> (q - p) * 1"
      using d True by (intro mult_left_mono) simp_all
    ultimately show ?thesis using True by (simp add: h algebra_simps)
  next
    case False
    show ?thesis
    proof (cases "u < 1 / 2")
      case True
      then show ?thesis using False assms(1) by (simp add: h)
    next
      case h2: False
      show ?thesis
      proof (cases "u < 2 / 3")
        case True
        define w where "w = (q - p) * ((2 / 3 - u) * 6)"
        have "0 \<le> w" using d True by (simp add: w_def)
        moreover have "w \<le> (q - p) * 1"
          unfolding w_def using d h2 by (intro mult_left_mono) simp_all
        moreover have "hue2rgb p q t = p + w"
          using True False h2 by (simp add: h w_def mult.assoc)
        ultimately show ?thesis by simp
      next
        case h3: False
        then show ?thesis using False h2 assms(1) by (simp add: h)
      qed
    qed
  qed
qed

lemma js_round_unit:
  assumes "0 \<le> x" "x \<le> 1"
  shows "0 \<le> js_round (x * 255) \<and> js_round (x * 255) \<le> 255"
proof -
  have "real_of_int 0 \<le> x * 255" "x * 255 \<le> real_of_int 255" using assms by simp_all
  from js_round_bounds[OF this] show ?thesis .
qed

lemma hslToRgb_valid:
  assumes "0 \<le> h" "h \<le> 360" "0 \<le> s" "s \<le> 100" "0 \<le> l" "l \<le> 100"
  shows "validRGB (hslToRgb (h, s, l))"
proof (cases "s = 0")
  case True
  have "0 \<le> l / 100" "l / 100 \<le> 1" using assms by simp_all
  from js_round_unit[OF this] show ?thesis using True
    by (simp add: hslToRgb_def validRGB_def Let_def)
next
  case False
  define S where "S = s / 100"
  define L where "L = l / 100"
  define q where "q = (if L < 1 / 2 then L * (1 + S) else L + S - L * S)"
  define p where "p = 2 * L - q"
  have S: "0 \<le> S" "S \<le> 1" and L: "0 \<le> L" "L \<le> 1" using assms by (simp_all add: S_def L_def)
  have LS: "0 \<le> L * S" "L * S \<le> L" "L * S \<le> S"
    using S L by (simp_all add: mult_left_le mult_right_le_one_le mult_left_le_one_le)
  have "(1 - L) * S \<le> (1 - L) * 1" using S L by (intro mult_left_mono) simp_all
  then have LS2: "S - L * S \<le> 1 - L" by (simp add: algebra_simps)
  have q: "0 \<le> p" "p \<le> q" "q \<le> 1"
    using S L LS LS2 by (auto simp: q_def p_def algebra_simps)
  have t: "- 1 \<le> h / 360 + 1 / 3" "h / 360 + 1 / 3 \<le> 2" "- 1 \<le> h / 360" "h / 360 \<le> 2"
    "- 1 \<le> h / 360 - 1 / 3" "h / 360 - 1 / 3 \<le> 2"
    using assms(1,2) by simp_all
  have r: "0 \<le> hue2rgb p q (h / 360 + 1 / 3) \<and> hue2rgb p q (h / 360 + 1 / 3) \<le> 1"
    using hue2rgb_between[OF q(2) t(1,2)] q by linarith
  have g: "0 \<le> hue2rgb p q (h / 360) \<and> hue2rgb p q (h / 360) \<le> 1"
    using hue2rgb_between[OF q(2) t(3,4)] q by linarith
  have b: "0 \<le> hue2rgb p q (h / 360 - 1 / 3) \<and> hue2rgb p q (h / 360 - 1 / 3) \<le> 1"
    using hue2rgb_between[OF q(2) t(5,6)] q by linarith
  have "hslToRgb (h, s, l) =
          (js_round (hue2rgb p q (h / 360 + 1 / 3) * 255), js_round (hue2rgb p q (h / 360) * 255),
           js_round (hue2rgb p q (h / 360 - 1 / 3) * 255))"
    using False by (simp add: hslToRgb_def Let_def p_def q_def S_def L_def)
  then show ?thesis
    using js_round_unit[of "hue2rgb p q (h / 360 + 1 / 3)"] js_round_unit[of "hue2rgb p q (h / 360)"]
      js_round_unit[of "hue2rgb p q (h / 360 - 1 / 3)"] r g b
    by (simp add: validRGB_def)
qed

lemma validRGB_black: "validRGB blackRgb" by (simp add: validRGB_def blackRgb_def)
lemma validRGB_white: "validRGB whiteRgb" by (simp add: validRGB_def whiteRgb_def)

lemma score_range:
  assumes "0 \<le> h" "h \<le> 360" "0 \<le> s" "s \<le> 100" "0 \<le> l" "l \<le> 100"
  shows "1 \<le> calculateAccessibilityScore (h, s, l) tc \<and> calculateAccessibilityScore (h, s, l) tc \<le> 21"
  using getContrastRatio_range[OF hslToRgb_valid[OF assms] validRGB_black]
    getContrastRatio_range[OF hslToRgb_valid[OF assms] validRGB_white]
  by (auto simp: calculateAccessibilityScore_def Let_def le_max_iff_disj)

lemma searchSaturation_over_budget:
  assumes "maxIterations opts < real_of_int (iterations st)"
  shows "\<exists>k\<ge>0. searchSaturation opts orig h l ss st = st\<lparr>iterations := iterations st + k\<rparr>"
proof (cases ss)
  case Nil
  then show ?thesis by (auto intro: exI[of _ 0])
next
  case (Cons s rest)
  then show ?thesis using assms by (auto simp: Let_def intro: exI[of _ 1])
qed

lemma searchLightness_over_budget:
  assumes "maxIterations opts < real_of_int (iterations st)"
  shows "\<exists>k\<ge>0. searchLightness opts orig h ls ss st = st\<lparr>iterations := iterations st + k\<rparr>"
  using assms
proof (induction ls arbitrary: st)
  case Nil
  then show ?case by (auto intro: exI[of _ 0])
next
  case (Cons l ls)
  obtain k1 where k1: "0 \<le> k1"
    "searchSaturation opts orig h l ss st = st\<lparr>iterations := iterations st + k1\<rparr>"
    using searchSaturation_over_budget[OF Cons.prems] by blast
  have b: "maxIterations opts < real_of_int (iterations (st\<lparr>iterations := iterations st + k1\<rparr>))"
    using Cons.prems k1(1) by simp
  obtain k2 where k2: "0 \<le> k2"
    "searchLightness opts orig h ls ss (st\<lparr>iterations := iterations st + k1\<rparr>)
       = st\<lparr>iterations := iterations st + (k1 + k2)\<rparr>"
    using Cons.IH[OF b] by (auto simp: add.assoc)
  show ?case
  proof (cases "foundAccessible st \<and> bestBelow (bestDistance st) 20")
    case True
    then have "searchLightness opts orig h (l # ls) ss st = st\<lparr>iterations := iterations st + k1\<rparr>"
      by (simp add: k1(2) Let_def)
    then show ?thesis using k1(1) by blast
  next
    case False
    then have "searchLightness opts orig h (l # ls) ss st = st\<lparr>iterations := iterations st + (k1 + k2)\<rparr>"
      by (auto simp: k1(2) Let_def k2(2))
    moreover have "0 \<le> k1 + k2" using k1(1) k2(1) by simp
    ultimately show ?thesis by blast
  qed
qed

lemma searchHue_over_budget:
  assumes "maxIterations opts < real_of_int (iterations st)"
  shows "\<exists>k\<ge>0. searchHue opts orig hs ls ss st = st\<lparr>iterations := iterations st + k\<rparr>"
  using assms
proof (induction hs arbitrary: st)
  case Nil
  then show ?case by (auto intro: exI[of _ 0])
next
  case (Cons h hs)
  obtain k1 where k1: "0 \<le> k1"
    "searchLightness opts orig h ls ss st = st\<lparr>iterations := iterations st + k1\<rparr>"
    using searchLightness_over_budget[OF Cons.prems] by blast
  have b: "maxIterations opts < real_of_int (iterations (st\<lparr>iterations := iterations st + k1\<rparr>))"
    using Cons.prems k1(1) by simp
  obtain k2 where k2: "0 \<le> k2"
    "searchHue opts orig hs ls ss (st\<lparr>iterations := iterations st + k1\<rparr>)
       = st\<lparr>iterations := iterations st + (k1 + k2)\<rparr>"
    using Cons.IH[OF b] by (auto simp: add.assoc)
  show ?case
  proof (cases "foundAccessible st \<and> bestBelow (bestDistance st) 20")
    case True
    then have "searchHue opts orig (h # hs) ls ss st = st\<lparr>iterations := iterations st + k1\<rparr>"
      by (simp add: k1(2) Let_def)
    then show ?thesis using k1(1) by blast
  next
    case False
    then have "searchHue opts orig (h # hs) ls ss st = st\<lparr>iterations := iterations st + (k1 + k2)\<rparr>"
      by (auto simp: k1(2) Let_def k2(2))
    moreover have "0 \<le> k1 + k2" using k1(1) k2(1) by simp
    ultimately show ?thesis by blast
  qed
qed

lemma searchStages_over_budget:
  assumes "maxIterations opts < real_of_int (iterations st)"
  shows "\<exists>k\<ge>0. searchStages opts orig stages st = st\<lparr>iterations := iterations st + k\<rparr>"
  using assms
proof (induction stages arbitrary: st)
  case Nil
  then show ?case by (auto intro: exI[of _ 0])
next
  case (Cons stage stages)
  show ?case
  proof (cases "foundAccessible st")
    case True
    then show ?thesis by (auto intro: exI[of _ 0])
  next
    case False
    obtain k1 where k1: "0 \<le> k1"
      "searchHue opts orig (hueRange stage) (lightnessRange stage) (saturationRange stage) st
         = st\<lparr>iterations := iterations st + k1\<rparr>"
      using searchHue_over_budget[OF Cons.prems] by blast
    have b: "maxIterations opts < real_of_int (iterations (st\<lparr>iterations := iterations st + k1\<rparr>))"
      using Cons.prems k1(1) by simp
    obtain k2 where k2: "0 \<le> k2"
      "searchStages opts orig stages (st\<lparr>iterations := iterations st + k1\<rparr>)
         = st\<lparr>iterations := iterations st + (k1 + k2)\<rparr>"
      using Cons.IH[OF b] by (auto simp: add.assoc)
    have "searchStages opts orig (stage # stages) st = st\<lparr>iterations := iterations st + (k1 + k2)\<rparr>"
      using False by (simp add: k1(2) k2(2))
    moreover have "0 \<le> k1 + k2" using k1(1) k2(1) by simp
    ultimately show ?thesis by blast
  qed
qed

lemma searchFallbacks_none_passes:
  assumes "\<forall>c \<in> set fbs. calculateAccessibilityScore c (textColor opts) < targetRatio opts"
  shows "searchFallbacks opts orig fbs st = st"
  using assms by (induction fbs) (simp_all add: Let_def)

lemma score_black_both: "calculateAccessibilityScore (0, 0, 0) ''both'' = 21"
proof -
  have "hslToRgb (0, 0, 0) = blackRgb" by (simp add: hslToRgb_def js_round_def blackRgb_def)
  then show ?thesis
    using getContrastRatio_black_white getContrastRatio_self[OF validRGB_black]
    by (simp add: calculateAccessibilityScore_def Let_def)
qed

lemma score_white_white: "calculateAccessibilityScore (0, 0, 100) ''white'' = 1"
proof -
  have "hslToRgb (0, 0, 100) = whiteRgb" by (simp add: hslToRgb_def js_round_def whiteRgb_def)
  then show ?thesis
    using getContrastRatio_self[OF validRGB_white]
    by (simp add: calculateAccessibilityScore_def Let_def)
qed

lemma stagedSearch_unreachable:
  "bestScore (stagedSearch (0, 0, 100) unreachable_options) = 1"
proof -
  define st0 where "st0 = \<lparr>bestColor = (0, 0, 100),
                 bestScore = calculateAccessibilityScore (0, 0, 100) (textColor unreachable_options),
                 bestDistance = None, iterations = 0, foundAccessible = False\<rparr>"
  have "maxIterations unreachable_options < real_of_int (iterations st0)"
    by (simp add: st0_def unreachable_options_def)
  from searchStages_over_budget[OF this]
  obtain k where k: "searchStages unreachable_options (0, 0, 100)
                       (searchStageList unreachable_options (0, 0, 100)) st0
                     = st0\<lparr>iterations := iterations st0 + k\<rparr>"
    by blast
  have sc: "bestScore st0 = 1"
    by (simp add: st0_def unreachable_options_def score_white_white)
  have fb: "\<forall>c \<in> set (generateHuePreservingFallbacks 0 0).
              calculateAccessibilityScore c (textColor unreachable_options)
                < targetRatio unreachable_options"
  proof
    fix c assume "c \<in> set (generateHuePreservingFallbacks 0 0)"
    then obtain h s l where c: "c = (h, s, l)" "0 \<le> h" "h \<le> 360" "0 \<le> s" "s \<le> 100" "0 \<le> l" "l \<le> 100"
      by (auto simp: generateHuePreservingFallbacks_def js_mod_def js_trunc_def)
    from score_range[OF c(2-7), of "textColor unreachable_options"]
    show "calculateAccessibilityScore c (textColor unreachable_options) < targetRatio unreachable_options"
      by (simp add: c(1) unreachable_options_def)
  qed
  have "stagedSearch (0, 0, 100) unreachable_options = st0\<lparr>iterations := iterations st0 + k\<rparr>"
    unfolding stagedSearch_def
    by (simp add: Let_def st0_def[symmetric] k sc searchFallbacks_none_passes[OF fb])
  then show ?thesis by (simp add: sc)
qed


lemma hslToRgb_red360: "hslToRgb (360, 100, 50) = (255, 0, 0)"
  by (simp add: hslToRgb_def hue2rgb_def js_round_def Let_def)

lemma luminance_red: "calculateLuminance (255, 0, 0) = 0.2126"
  by (simp add: calculateLuminance_def linearize_0 linearize_255)

lemma score_red360: "calculateAccessibilityScore (360, 100, 50) ''both'' = 5.25"
  by (simp add: calculateAccessibilityScore_def hslToRgb_red360 getContrastRatio_def Let_def
      luminance_red luminance_black luminance_white js_round_def)


text \<open>
  Claim C9, as the code has it. \<open>findAccessibleColor\<close> is a total function into HSL
  triples (it has no null result) for every input and every option set. If the original
  colour already reaches the target ratio it is returned as it is, unclamped. Otherwise
  the result is clamped: hue in [0, 360), saturation and lightness in [0, 100]; in
  particular a result is in range whenever the input is. If moreover the stage loops and
  the fallback table leave the best score below the target, the result is the fixed
  swatch of the hue family of the original hue.
\<close>

theorem findAccessibleColor_result:
  "(calculateAccessibilityScore originalHSL (textColor opts) \<ge> targetRatio opts \<longrightarrow>
      findAccessibleColor originalHSL opts = originalHSL)
   \<and> (calculateAccessibilityScore originalHSL (textColor opts) < targetRatio opts \<longrightarrow>
      validHSL (findAccessibleColor originalHSL opts))
   \<and> (validHSL originalHSL \<longrightarrow> validHSL (findAccessibleColor originalHSL opts))
   \<and> (calculateAccessibilityScore originalHSL (textColor opts) < targetRatio opts
        \<and> bestScore (stagedSearch originalHSL opts) < targetRatio opts \<longrightarrow>
      findAccessibleColor originalHSL opts =
        getAccessibleColorForHueFamily (getHueFamily (fst originalHSL)))"
  by (cases originalHSL)
     (auto simp: findAccessibleColor_def Let_def clampHSL_valid clampHSL_id family_color_valid)


theorem findAccessibleColor_result_witness:
  "calculateAccessibilityScore (0, 0, 0) (textColor default_search_options)
     \<ge> targetRatio default_search_options
   \<and> validHSL (0, 0, 0)
   \<and> findAccessibleColor (0, 0, 0) default_search_options = (0, 0, 0)
   \<and> calculateAccessibilityScore (0, 0, 100) (textColor unreachable_options)
        < targetRatio unreachable_options
   \<and> bestScore (stagedSearch (0, 0, 100) unreachable_options) < targetRatio unreachable_options
   \<and> findAccessibleColor (0, 0, 100) unreachable_options = (0, 60, 45)
   \<and> validHSL (findAccessibleColor (0, 0, 100) unreachable_options)"
proof -
  have a: "calculateAccessibilityScore (0, 0, 0) (textColor default_search_options)
             \<ge> targetRatio default_search_options"
    by (simp add: default_search_options_def score_black_both)
  have v: "validHSL (0, 0, 0)" by (simp add: validHSL_def)
  have b: "calculateAccessibilityScore (0, 0, 100) (textColor unreachable_options)
             < targetRatio unreachable_options"
    by (simp add: unreachable_options_def score_white_white)
  have c: "bestScore (stagedSearch (0, 0, 100) unreachable_options) < targetRatio unreachable_options"
    unfolding stagedSearch_unreachable by (simp add: unreachable_options_def)
  have f: "getAccessibleColorForHueFamily (getHueFamily (fst ((0, 0, 100) :: hsl))) = (0, 60, 45)"
    by (simp add: getAccessibleColorForHueFamily_def getHueFamily_def)
  note r1 = findAccessibleColor_result[where originalHSL = "(0, 0, 0)" and opts = default_search_options]
  note r2 = findAccessibleColor_result[where originalHSL = "(0, 0, 100)" and opts = unreachable_options]
  from r1 a have "findAccessibleColor (0, 0, 0) default_search_options = (0, 0, 0)" by blast
  moreover from r2 b c have "findAccessibleColor (0, 0, 100) unreachable_options = (0, 60, 45)"
    unfolding f by blast
  moreover from r2 b have "validHSL (findAccessibleColor (0, 0, 100) unreachable_options)" by blast
  ultimately show ?thesis using a v b c by blast
qed

text \<open>
  The result is not always in range: \<open>rgbToHSL\<close> turns \<open>rgb(255, 0, 1)\<close> into the hue
  360, that colour passes against black (ratio 5.25), and the search hands it back
  unclamped.
\<close>

theorem findAccessibleColor_returns_hue_360:
  "rgbToHSL (255, 0, 1) = (360, 100, 50)
   \<and> findAccessibleColor (360, 100, 50) default_search_options = (360, 100, 50)
   \<and> \<not> validHSL (findAccessibleColor (360, 100, 50) default_search_options)"
proof -
  have a: "rgbToHSL (255, 0, 1) = (360, 100, 50)"
    by (simp add: rgbToHSL_def js_round_def Let_def)
  have b: "findAccessibleColor (360, 100, 50) default_search_options = (360, 100, 50)"
    by (simp add: findAccessibleColor_def default_search_options_def score_red360)
  show ?thesis unfolding b using a by (simp add: validHSL_def)
qed

section \<open>The search under an accessibility mode\<close>

lemma fullSaturation_accessible:
  "accessibleState am st \<Longrightarrow> accessibleState am (fullSaturation orig am h l ss st)"
  by (induction ss arbitrary: st) (auto simp: Let_def accessibleState_def)

lemma fullLightness_accessible:
  "accessibleState am st \<Longrightarrow> accessibleState am (fullLightness orig am h ls ss st)"
  by (induction ls arbitrary: st) (auto simp: Let_def fullSaturation_accessible)

lemma fullHue_accessible:
  "accessibleState am st \<Longrightarrow> accessibleState am (fullHue orig am hs ls ss st)"
  by (induction hs arbitrary: st) (auto simp: Let_def fullLightness_accessible)

lemma findFullyAccessibleColor_accessible:
  assumes "findFullyAccessibleColor originalHSL mode accessibilityMode = Inr (Some c)"
  shows "isColorAccessibleByMode (colorData c) accessibilityMode"
proof -
  obtain ranges where r: "searchRanges originalHSL mode = Some ranges"
    using assms by (auto simp: findFullyAccessibleColor_def split: option.splits)
  define st where "st = fullHue originalHSL accessibilityMode (take 8 (hueValues ranges))
                    (lightnessValues ranges) (take 6 (saturationValues ranges)) None"
  have "accessibleState accessibilityMode st"
    unfolding st_def by (rule fullHue_accessible) (simp add: accessibleState_def)
  moreover have "map_option fst st = Some c"
    using assms by (simp add: findFullyAccessibleColor_def r st_def)
  ultimately show ?thesis by (auto simp: accessibleState_def)
qed


subsection \<open>Bounds on the luminance\<close>

lemma fifth_root_of_fifth_power:
  fixes b :: real
  assumes "0 \<le> b"
  shows "(b ^ 5) powr (1 / 5) = b"
proof (cases "b = 0")
  case True
  then show ?thesis by simp
next
  case False
  then have b: "0 < b" using assms by simp
  have "b ^ 5 = b powr 5" using b by simp
  then have "(b ^ 5) powr (1 / 5) = b powr (5 * (1 / 5))" by (simp only: powr_powr)
  then show ?thesis using b by simp
qed

lemma powr_twelve_fifths:
  fixes x :: real
  assumes "0 \<le> x"
  shows "x powr 2.4 = (x ^ 12) powr (1 / 5)"
proof (cases "x = 0")
  case True
  then show ?thesis by simp
next
  case False
  then have x: "0 < x" using assms by simp
  have "x ^ 12 = x powr 12" using x by simp
  then have "(x ^ 12) powr (1 / 5) = x powr (12 * (1 / 5))" by (simp only: powr_powr)
  then show ?thesis by simp
qed

lemma powr_12_5_le:
  fixes x b :: real
  assumes "0 \<le> x" "0 \<le> b" "x ^ 12 \<le> b ^ 5"
  shows "x powr 2.4 \<le> b"
proof -
  have "(x ^ 12) powr (1 / 5) \<le> (b ^ 5) powr (1 / 5)"
    using assms by (intro powr_mono2) simp_all
  then show ?thesis
    by (simp only: powr_twelve_fifths[OF assms(1)] fifth_root_of_fifth_power[OF assms(2)])
qed

lemma powr_12_5_ge:
  fixes x a :: real
  assumes "0 \<le> x" "0 \<le> a" "a ^ 5 \<le> x ^ 12"
  shows "a \<le> x powr 2.4"
proof -
  have "(a ^ 5) powr (1 / 5) \<le> (x ^ 12) powr (1 / 5)"
    using assms by (intro powr_mono2) simp_all
  then show ?thesis
    by (simp only: powr_twelve_fifths[OF assms(1)] fifth_root_of_fifth_power[OF assms(2)])
qed

lemma linearize_powr:
  assumes "11 \<le> c"
  shows "linearize c = ((40 * real_of_int c + 561) / 10761) powr 2.4"
proof -
  have "real_of_int 11 \<le> real_of_int c" using assms by (simp only: of_int_le_iff)
  then have f1: "\<not> real_of_int c / 255 \<le> 0.03928" by simp
  have f2: "(real_of_int c / 255 + 0.055) / 1.055 = (40 * real_of_int c + 561) / 10761"
    by (simp add: field_simps)
  show ?thesis by (simp only: linearize_def Let_def f1 if_False f2)
qed

lemma linearize_le:
  assumes "11 \<le> c" "0 \<le> b" "((40 * real_of_int c + 561) / 10761) ^ 12 \<le> b ^ 5"
  shows "linearize c \<le> b"
  unfolding linearize_powr[OF assms(1)]
  using assms by (intro powr_12_5_le) simp_all

lemma linearize_ge:
  assumes "11 \<le> c" "0 \<le> a" "a ^ 5 \<le> ((40 * real_of_int c + 561) / 10761) ^ 12"
  shows "a \<le> linearize c"
  unfolding linearize_powr[OF assms(1)]
  using assms by (intro powr_12_5_ge) simp_all

lemma hues_scenarioA:
  "take 8 (generateSearchRange_ui 202 0 360 15) = [202, 187, 217, 172, 232, 157, 247, 142]"
  by (simp add: generateSearchRange_ui_def forSteps_def sortByDistance_def Let_def upt_rec)

lemma sats_scenarioA:
  "take 6 (generateSearchRange_ui 57 20 90 10) = [57, 47, 67, 37, 77, 27]"
  by (simp add: generateSearchRange_ui_def forSteps_def sortByDistance_def Let_def upt_rec)

lemma ratio_against_black:
  assumes "validRGB c"
  shows "getContrastRatio c blackRgb =
           of_int (js_round (((calculateLuminance c + 0.05) / (0 + 0.05)) * 100)) / 100"
proof -
  have "0 \<le> calculateLuminance c" using luminance_range[OF assms] by simp
  then have "max (calculateLuminance c) 0 = calculateLuminance c"
    "min (calculateLuminance c) 0 = 0" by simp_all
  then show ?thesis by (simp only: getContrastRatio_def Let_def luminance_black)
qed

lemma ratio_against_white:
  assumes "validRGB c"
  shows "getContrastRatio c whiteRgb =
           of_int (js_round (((1 + 0.05) / (calculateLuminance c + 0.05)) * 100)) / 100"
proof -
  have "calculateLuminance c \<le> 1" using luminance_range[OF assms] by simp
  then have "max (calculateLuminance c) 1 = 1"
    "min (calculateLuminance c) 1 = calculateLuminance c" by simp_all
  then show ?thesis by (simp only: getContrastRatio_def Let_def luminance_white)
qed

text \<open>
  The two thresholds in terms of luminance: the rounded ratio against black reaches 4.5
  from luminance 0.17475 on, the rounded ratio against white up to luminance 0.18359.
\<close>

lemma black_ratio_below:
  assumes "validRGB c" "calculateLuminance c < 0.17475"
  shows "getContrastRatio c blackRgb < 4.5"
proof -
  define x where "x = ((calculateLuminance c + 0.05) / (0 + 0.05)) * 100"
  have "x + 1 / 2 < 450" using assms(2) by (simp add: x_def)
  then have "js_round x < 450" by (simp add: js_round_def floor_less_iff)
  then have "js_round x \<le> 449" by simp
  then have "real_of_int (js_round x) \<le> 449" by linarith
  then show ?thesis
    unfolding ratio_against_black[OF assms(1)] x_def[symmetric] by simp
qed

lemma black_ratio_reached:
  assumes "validRGB c" "0.17475 \<le> calculateLuminance c"
  shows "getContrastRatio c blackRgb \<ge> 4.5"
proof -
  define x where "x = ((calculateLuminance c + 0.05) / (0 + 0.05)) * 100"
  have "450 \<le> x + 1 / 2" using assms(2) by (simp add: x_def)
  then have "450 \<le> js_round x" by (simp add: js_round_def le_floor_iff)
  then have "(450::real) \<le> of_int (js_round x)" by linarith
  then show ?thesis
    unfolding ratio_against_black[OF assms(1)] x_def[symmetric] by simp
qed

lemma white_ratio_reached:
  assumes "validRGB c" "calculateLuminance c \<le> 0.18359"
  shows "getContrastRatio c whiteRgb \<ge> 4.5"
proof -
  define L where "L = calculateLuminance c"
  define y where "y = ((1 + 0.05) / (L + 0.05)) * 100"
  have L: "0 \<le> L" "L \<le> 0.18359" using assms(2) luminance_range[OF assms(1)] by (simp_all add: L_def)
  have "449.5 * (L + 0.05) \<le> 105" using L(2) by simp
  then have "449.5 \<le> 105 / (L + 0.05)" using L(1) by (simp add: pos_le_divide_eq)
  moreover have "y = 105 / (L + 0.05)" using L(1) by (simp add: y_def field_simps)
  ultimately have "450 \<le> y + 1 / 2" by linarith
  then have "450 \<le> js_round y" by (simp add: js_round_def le_floor_iff)
  then have "(450::real) \<le> of_int (js_round y)" by linarith
  then show ?thesis
    unfolding ratio_against_white[OF assms(1)] L_def[symmetric] y_def[symmetric] by simp
qed

lemma white_ratio_below:
  assumes "validRGB c" "0.1836 \<le> calculateLuminance c"
  shows "getContrastRatio c whiteRgb < 4.5"
proof -
  define L where "L = calculateLuminance c"
  define y where "y = ((1 + 0.05) / (L + 0.05)) * 100"
  have L: "0.1836 \<le> L" using assms(2) by (simp add: L_def)
  have "105 < 449.5 * (L + 0.05)" using L by simp
  then have "105 / (L + 0.05) < 449.5" using L by (simp add: pos_divide_less_eq)
  moreover have "y = 105 / (L + 0.05)" using L by (simp add: y_def field_simps)
  ultimately have "y + 1 / 2 < 450" by linarith
  then have "js_round y < 450" by (simp add: js_round_def floor_less_iff)
  then have "js_round y \<le> 449" by simp
  then have "real_of_int (js_round y) \<le> 449" by linarith
  then show ?thesis
    unfolding ratio_against_white[OF assms(1)] L_def[symmetric] y_def[symmetric] by simp
qed

lemma too_dark_fails_full:
  assumes "hslToRgb cand = c" "validRGB c" "calculateLuminance c < 0.17475"
  shows "\<not> isColorAccessibleByMode (colorData cand) ''full''"
  using black_ratio_below[OF assms(2,3)]
  by (simp add: isColorAccessibleByMode_def colorData_def getContrastInfo_def contrastSide_def
      assms(1) Let_def)

lemma in_window_passes_full:
  assumes "hslToRgb cand = c" "validRGB c"
    "0.17475 \<le> calculateLuminance c" "calculateLuminance c \<le> 0.18359"
  shows "isColorAccessibleByMode (colorData cand) ''full''"
  using black_ratio_reached[OF assms(2,3)] white_ratio_reached[OF assms(2,4)]
  by (simp add: isColorAccessibleByMode_def colorData_def getContrastInfo_def contrastSide_def
      assms(1) Let_def)

lemma linearize_upper_bounds:
  shows
  "linearize 15 \<le> 3 / 625"
  "linearize 18 \<le> 61 / 10000"
  "linearize 21 \<le> 3 / 400"
  "linearize 25 \<le> 49 / 5000"
  "linearize 27 \<le> 11 / 1000"
  "linearize 29 \<le> 123 / 10000"
  "linearize 33 \<le> 153 / 10000"
  "linearize 34 \<le> 2 / 125"
  "linearize 38 \<le> 97 / 5000"
  "linearize 40 \<le> 213 / 10000"
  "linearize 41 \<le> 111 / 5000"
  "linearize 44 \<le> 63 / 2500"
  "linearize 47 \<le> 57 / 2000"
  "linearize 48 \<le> 37 / 1250"
  "linearize 54 \<le> 369 / 10000"
  "linearize 56 \<le> 99 / 2500"
  "linearize 64 \<le> 513 / 10000"
  "linearize 65 \<le> 529 / 10000"
  "linearize 68 \<le> 579 / 10000"
  "linearize 70 \<le> 613 / 10000"
  "linearize 72 \<le> 649 / 10000"
  "linearize 73 \<le> 667 / 10000"
  "linearize 75 \<le> 44 / 625"
  "linearize 77 \<le> 743 / 10000"
  "linearize 81 \<le> 823 / 10000"
  "linearize 82 \<le> 211 / 2500"
  "linearize 84 \<le> 887 / 10000"
  "linearize 86 \<le> 931 / 10000"
  "linearize 87 \<le> 477 / 5000"
  "linearize 88 \<le> 61 / 625"
  "linearize 90 \<le> 1023 / 10000"
  "linearize 92 \<le> 1071 / 10000"
  "linearize 94 \<le> 14 / 125"
  "linearize 96 \<le> 117 / 1000"
  "linearize 97 \<le> 299 / 2500"
  "linearize 98 \<le> 611 / 5000"
  "linearize 100 \<le> 51 / 400"
  "linearize 103 \<le> 1357 / 10000"
  "linearize 105 \<le> 1413 / 10000"
  "linearize 106 \<le> 721 / 5000"
  "linearize 108 \<le> 3 / 20"
  "linearize 112 \<le> 1621 / 10000"
  "linearize 113 \<le> 413 / 2500"
  "linearize 115 \<le> 343 / 2000"
  "linearize 118 \<le> 453 / 2500"
  "linearize 120 \<le> 1879 / 10000"
  "linearize 122 \<le> 1947 / 10000"
  "linearize 128 \<le> 2159 / 10000"
  "linearize 131 \<le> 227 / 1000"
  "linearize 135 \<le> 2423 / 10000"
  "linearize 140 \<le> 2623 / 10000"
  "linearize 149 \<le> 1503 / 5000"
  "linearize 150 \<le> 61 / 200"
  "linearize 158 \<le> 171 / 500"
  "linearize 160 \<le> 879 / 2500"
  "linearize 170 \<le> 201 / 500"
  by (rule linearize_le, simp, simp, simp add: power_divide)+

lemma candidate_25_57_fails: "\<not> isColorAccessibleByMode (colorData (202, 57, 25)) ''full''"
proof (rule too_dark_fails_full)
  show "hslToRgb (202, 57, 25) = (27, 73, 100)"
    by (simp add: hslToRgb_def hue2rgb_def js_round_def Let_def)
  show "validRGB (27, 73, 100)" by (simp add: validRGB_def)
  show "calculateLuminance (27, 73, 100) < 0.17475"
    using linearize_upper_bounds(5) linearize_upper_bounds(22) linearize_upper_bounds(37)
    by (simp add: calculateLuminance_def)
qed

lemma candidate_25_47_fails: "\<not> isColorAccessibleByMode (colorData (202, 47, 25)) ''full''"
proof (rule too_dark_fails_full)
  show "hslToRgb (202, 47, 25) = (34, 72, 94)"
    by (simp add: hslToRgb_def hue2rgb_def js_round_def Let_def)
  show "validRGB (34, 72, 94)" by (simp add: validRGB_def)
  show "calculateLuminance (34, 72, 94) < 0.17475"
    using linearize_upper_bounds(8) linearize_upper_bounds(21) linearize_upper_bounds(33)
    by (simp add: calculateLuminance_def)
qed

lemma candidate_25_67_fails: "\<not> isColorAccessibleByMode (colorData (202, 67, 25)) ''full''"
proof (rule too_dark_fails_full)
  show "hslToRgb (202, 67, 25) = (21, 75, 106)"
    by (simp add: hslToRgb_def hue2rgb_def js_round_def Let_def)
  show "validRGB (21, 75, 106)" by (simp add: validRGB_def)
  show "calculateLuminance (21, 75, 106) < 0.17475"
    using linearize_upper_bounds(3) linearize_upper_bounds(23) linearize_upper_bounds(40)
    by (simp add: calculateLuminance_def)
qed

lemma candidate_25_37_fails: "\<not> isColorAccessibleByMode (colorData (202, 37, 25)) ''full''"
proof (rule too_dark_fails_full)
  show "hslToRgb (202, 37, 25) = (40, 70, 87)"
    by (simp add: hslToRgb_def hue2rgb_def js_round_def Let_def)
  show "validRGB (40, 70, 87)" by (simp add: validRGB_def)
  show "calculateLuminance (40, 70, 87) < 0.17475"
    using linearize_upper_bounds(10) linearize_upper_bounds(20) linearize_upper_bounds(29)
    by (simp add: calculateLuminance_def)
qed

lemma candidate_25_77_fails: "\<not> isColorAccessibleByMode (colorData (202, 77, 25)) ''full''"
proof (rule too_dark_fails_full)
  show "hslToRgb (202, 77, 25) = (15, 77, 113)"
    by (simp add: hslToRgb_def hue2rgb_def js_round_def Let_def)
  show "validRGB (15, 77, 113)" by (simp add: validRGB_def)
  show "calculateLuminance (15, 77, 113) < 0.17475"
    using linearize_upper_bounds(1) linearize_upper_bounds(24) linearize_upper_bounds(43)
    by (simp add: calculateLuminance_def)
qed

lemma candidate_25_27_fails: "\<not> isColorAccessibleByMode (colorData (202, 27, 25)) ''full''"
proof (rule too_dark_fails_full)
  show "hslToRgb (202, 27, 25) = (47, 68, 81)"
    by (simp add: hslToRgb_def hue2rgb_def js_round_def Let_def)
  show "validRGB (47, 68, 81)" by (simp add: validRGB_def)
  show "calculateLuminance (47, 68, 81) < 0.17475"
    using linearize_upper_bounds(13) linearize_upper_bounds(19) linearize_upper_bounds(25)
    by (simp add: calculateLuminance_def)
qed

lemma candidate_30_57_fails: "\<not> isColorAccessibleByMode (colorData (202, 57, 30)) ''full''"
proof (rule too_dark_fails_full)
  show "hslToRgb (202, 57, 30) = (33, 88, 120)"
    by (simp add: hslToRgb_def hue2rgb_def js_round_def Let_def)
  show "validRGB (33, 88, 120)" by (simp add: validRGB_def)
  show "calculateLuminance (33, 88, 120) < 0.17475"
    using linearize_upper_bounds(7) linearize_upper_bounds(30) linearize_upper_bounds(46)
    by (simp add: calculateLuminance_def)
qed

lemma candidate_30_47_fails: "\<not> isColorAccessibleByMode (colorData (202, 47, 30)) ''full''"
proof (rule too_dark_fails_full)
  show "hslToRgb (202, 47, 30) = (41, 86, 112)"
    by (simp add: hslToRgb_def hue2rgb_def js_round_def Let_def)
  show "validRGB (41, 86, 112)" by (simp add: validRGB_def)
  show "calculateLuminance (41, 86, 112) < 0.17475"
    using linearize_upper_bounds(11) linearize_upper_bounds(28) linearize_upper_bounds(42)
    by (simp add: calculateLuminance_def)
qed

lemma candidate_30_67_fails: "\<not> isColorAccessibleByMode (colorData (202, 67, 30)) ''full''"
proof (rule too_dark_fails_full)
  show "hslToRgb (202, 67, 30) = (25, 90, 128)"
    by (simp add: hslToRgb_def hue2rgb_def js_round_def Let_def)
  show "validRGB (25, 90, 128)" by (simp add: validRGB_def)
  show "calculateLuminance (25, 90, 128) < 0.17475"
    using linearize_upper_bounds(4) linearize_upper_bounds(31) linearize_upper_bounds(48)
    by (simp add: calculateLuminance_def)
qed

lemma candidate_30_37_fails: "\<not> isColorAccessibleByMode (colorData (202, 37, 30)) ''full''"
proof (rule too_dark_fails_full)
  show "hslToRgb (202, 37, 30) = (48, 84, 105)"
    by (simp add: hslToRgb_def hue2rgb_def js_round_def Let_def)
  show "validRGB (48, 84, 105)" by (simp add: validRGB_def)
  show "calculateLuminance (48, 84, 105) < 0.17475"
    using linearize_upper_bounds(14) linearize_upper_bounds(27) linearize_upper_bounds(39)
    by (simp add: calculateLuminance_def)
qed

lemma candidate_30_77_fails: "\<not> isColorAccessibleByMode (colorData (202, 77, 30)) ''full''"
proof (rule too_dark_fails_full)
  show "hslToRgb (202, 77, 30) = (18, 92, 135)"
    by (simp add: hslToRgb_def hue2rgb_def js_round_def Let_def)
  show "validRGB (18, 92, 135)" by (simp add: validRGB_def)
  show "calculateLuminance (18, 92, 135) < 0.17475"
    using linearize_upper_bounds(2) linearize_upper_bounds(32) linearize_upper_bounds(50)
    by (simp add: calculateLuminance_def)
qed

lemma candidate_30_27_fails: "\<not> isColorAccessibleByMode (colorData (202, 27, 30)) ''full''"
proof (rule too_dark_fails_full)
  show "hslToRgb (202, 27, 30) = (56, 82, 97)"
    by (simp add: hslToRgb_def hue2rgb_def js_round_def Let_def)
  show "validRGB (56, 82, 97)" by (simp add: validRGB_def)
  show "calculateLuminance (56, 82, 97) < 0.17475"
    using linearize_upper_bounds(16) linearize_upper_bounds(26) linearize_upper_bounds(35)
    by (simp add: calculateLuminance_def)
qed

lemma candidate_35_57_fails: "\<not> isColorAccessibleByMode (colorData (202, 57, 35)) ''full''"
proof (rule too_dark_fails_full)
  show "hslToRgb (202, 57, 35) = (38, 103, 140)"
    by (simp add: hslToRgb_def hue2rgb_def js_round_def Let_def)
  show "validRGB (38, 103, 140)" by (simp add: validRGB_def)
  show "calculateLuminance (38, 103, 140) < 0.17475"
    using linearize_upper_bounds(9) linearize_upper_bounds(38) linearize_upper_bounds(51)
    by (simp add: calculateLuminance_def)
qed

lemma candidate_35_47_fails: "\<not> isColorAccessibleByMode (colorData (202, 47, 35)) ''full''"
proof (rule too_dark_fails_full)
  show "hslToRgb (202, 47, 35) = (47, 100, 131)"
    by (simp add: hslToRgb_def hue2rgb_def js_round_def Let_def)
  show "validRGB (47, 100, 131)" by (simp add: validRGB_def)
  show "calculateLuminance (47, 100, 131) < 0.17475"
    using linearize_upper_bounds(13) linearize_upper_bounds(37) linearize_upper_bounds(49)
    by (simp add: calculateLuminance_def)
qed

lemma candidate_35_67_fails: "\<not> isColorAccessibleByMode (colorData (202, 67, 35)) ''full''"
proof (rule too_dark_fails_full)
  show "hslToRgb (202, 67, 35) = (29, 105, 149)"
    by (simp add: hslToRgb_def hue2rgb_def js_round_def Let_def)
  show "validRGB (29, 105, 149)" by (simp add: validRGB_def)
  show "calculateLuminance (29, 105, 149) < 0.17475"
    using linearize_upper_bounds(6) linearize_upper_bounds(39) linearize_upper_bounds(52)
    by (simp add: calculateLuminance_def)
qed

lemma candidate_35_37_fails: "\<not> isColorAccessibleByMode (colorData (202, 37, 35)) ''full''"
proof (rule too_dark_fails_full)
  show "hslToRgb (202, 37, 35) = (56, 98, 122)"
    by (simp add: hslToRgb_def hue2rgb_def js_round_def Let_def)
  show "validRGB (56, 98, 122)" by (simp add: validRGB_def)
  show "calculateLuminance (56, 98, 122) < 0.17475"
    using linearize_upper_bounds(16) linearize_upper_bounds(36) linearize_upper_bounds(47)
    by (simp add: calculateLuminance_def)
qed

lemma candidate_35_77_fails: "\<not> isColorAccessibleByMode (colorData (202, 77, 35)) ''full''"
proof (rule too_dark_fails_full)
  show "hslToRgb (202, 77, 35) = (21, 108, 158)"
    by (simp add: hslToRgb_def hue2rgb_def js_round_def Let_def)
  show "validRGB (21, 108, 158)" by (simp add: validRGB_def)
  show "calculateLuminance (21, 108, 158) < 0.17475"
    using linearize_upper_bounds(3) linearize_upper_bounds(41) linearize_upper_bounds(54)
    by (simp add: calculateLuminance_def)
qed

lemma candidate_35_27_fails: "\<not> isColorAccessibleByMode (colorData (202, 27, 35)) ''full''"
proof (rule too_dark_fails_full)
  show "hslToRgb (202, 27, 35) = (65, 96, 113)"
    by (simp add: hslToRgb_def hue2rgb_def js_round_def Let_def)
  show "validRGB (65, 96, 113)" by (simp add: validRGB_def)
  show "calculateLuminance (65, 96, 113) < 0.17475"
    using linearize_upper_bounds(18) linearize_upper_bounds(34) linearize_upper_bounds(43)
    by (simp add: calculateLuminance_def)
qed

lemma candidate_40_57_fails: "\<not> isColorAccessibleByMode (colorData (202, 57, 40)) ''full''"
proof (rule too_dark_fails_full)
  show "hslToRgb (202, 57, 40) = (44, 118, 160)"
    by (simp add: hslToRgb_def hue2rgb_def js_round_def Let_def)
  show "validRGB (44, 118, 160)" by (simp add: validRGB_def)
  show "calculateLuminance (44, 118, 160) < 0.17475"
    using linearize_upper_bounds(12) linearize_upper_bounds(45) linearize_upper_bounds(55)
    by (simp add: calculateLuminance_def)
qed

lemma candidate_40_47_fails: "\<not> isColorAccessibleByMode (colorData (202, 47, 40)) ''full''"
proof (rule too_dark_fails_full)
  show "hslToRgb (202, 47, 40) = (54, 115, 150)"
    by (simp add: hslToRgb_def hue2rgb_def js_round_def Let_def)
  show "validRGB (54, 115, 150)" by (simp add: validRGB_def)
  show "calculateLuminance (54, 115, 150) < 0.17475"
    using linearize_upper_bounds(15) linearize_upper_bounds(44) linearize_upper_bounds(53)
    by (simp add: calculateLuminance_def)
qed

lemma candidate_40_67_fails: "\<not> isColorAccessibleByMode (colorData (202, 67, 40)) ''full''"
proof (rule too_dark_fails_full)
  show "hslToRgb (202, 67, 40) = (34, 120, 170)"
    by (simp add: hslToRgb_def hue2rgb_def js_round_def Let_def)
  show "validRGB (34, 120, 170)" by (simp add: validRGB_def)
  show "calculateLuminance (34, 120, 170) < 0.17475"
    using linearize_upper_bounds(8) linearize_upper_bounds(46) linearize_upper_bounds(56)
    by (simp add: calculateLuminance_def)
qed

lemma candidate_40_37_fails: "\<not> isColorAccessibleByMode (colorData (202, 37, 40)) ''full''"
proof (rule too_dark_fails_full)
  show "hslToRgb (202, 37, 40) = (64, 112, 140)"
    by (simp add: hslToRgb_def hue2rgb_def js_round_def Let_def)
  show "validRGB (64, 112, 140)" by (simp add: validRGB_def)
  show "calculateLuminance (64, 112, 140) < 0.17475"
    using linearize_upper_bounds(17) linearize_upper_bounds(42) linearize_upper_bounds(51)
    by (simp add: calculateLuminance_def)
qed

lemma candidate_40_77_passes: "isColorAccessibleByMode (colorData (202, 77, 40)) ''full''"
proof (rule in_window_passes_full)
  show "hslToRgb (202, 77, 40) = (23, 123, 181)"
    by (simp add: hslToRgb_def hue2rgb_def js_round_def Let_def)
  show "validRGB (23, 123, 181)" by (simp add: validRGB_def)
  have u: "linearize 23 \<le> 857 / 100000" "linearize 123 \<le> 19807 / 100000" "linearize 181 \<le> 1444 / 3125"
    by (rule linearize_le, simp, simp, simp add: power_divide)+
  have l: "107 / 12500 \<le> linearize 23" "9903 / 50000 \<le> linearize 123" "46207 / 100000 \<le> linearize 181"
    by (rule linearize_ge, simp, simp, simp add: power_divide)+
  show "0.17475 \<le> calculateLuminance (23, 123, 181)"
    using l by (simp add: calculateLuminance_def)
  show "calculateLuminance (23, 123, 181) \<le> 0.18359"
    using u by (simp add: calculateLuminance_def)
qed

lemmas scenarioA_candidates =
  candidate_25_57_fails
  candidate_25_47_fails
  candidate_25_67_fails
  candidate_25_37_fails
  candidate_25_77_fails
  candidate_25_27_fails
  candidate_30_57_fails
  candidate_30_47_fails
  candidate_30_67_fails
  candidate_30_37_fails
  candidate_30_77_fails
  candidate_30_27_fails
  candidate_35_57_fails
  candidate_35_47_fails
  candidate_35_67_fails
  candidate_35_37_fails
  candidate_35_77_fails
  candidate_35_27_fails
  candidate_40_57_fails
  candidate_40_47_fails
  candidate_40_67_fails
  candidate_40_37_fails

lemma distance_scenarioA: "calculateColorDistance (202, 57, 50) (202, 77, 40) = 13 / 2"
  by (simp add: calculateColorDistance_def Let_def)

lemma fullHue_scenarioA:
  "fullHue (202, 57, 50) ''full'' [202, 187, 217, 172, 232, 157, 247, 142]
     [25, 30, 35, 40, 45, 50] [57, 47, 67, 37, 77, 27] None = Some ((202, 77, 40), 13 / 2)"
  by (simp add: Let_def scenarioA_candidates candidate_40_77_passes distance_scenarioA
      distLess_def bestBelow_def minDistanceOf_def)

lemma findFullyAccessibleColor_scenarioA:
  "findFullyAccessibleColor (202, 57, 50) ''light'' ''full'' = Inr (Some (202, 77, 40))"
  by (simp add: findFullyAccessibleColor_def searchRanges_def hues_scenarioA sats_scenarioA
      fullHue_scenarioA del: fullHue.simps)


text \<open>
  Claim C2. Whenever the search under the Full accessibility mode succeeds, the colour it
  returns passes all four flags: normal and large text against black, normal and large
  text against white. It succeeds on the colour of scenario A, \<open>hsl(202, 57, 50)\<close>,
  where it returns \<open>hsl(202, 77, 40)\<close>.
\<close>

theorem full_mode_result_passes_all_four_flags:
  assumes "findFullyAccessibleColor originalHSL mode ''full'' = Inr (Some c)"
  shows "passesNormal (black (getContrastInfo (hslToRgb c)))
       \<and> passesLarge (black (getContrastInfo (hslToRgb c)))
       \<and> passesNormal (white (getContrastInfo (hslToRgb c)))
       \<and> passesLarge (white (getContrastInfo (hslToRgb c)))"
  using findFullyAccessibleColor_accessible[OF assms]
  by (simp add: isColorAccessibleByMode_def colorData_def Let_def)

theorem full_mode_result_passes_all_four_flags_witness:
  "rgbToHSL (55, 145, 198) = (202, 57, 50)
   \<and> findFullyAccessibleColor (202, 57, 50) ''light'' ''full'' = Inr (Some (202, 77, 40))
   \<and> passesNormal (black (getContrastInfo (hslToRgb (202, 77, 40))))
   \<and> passesLarge (black (getContrastInfo (hslToRgb (202, 77, 40))))
   \<and> passesNormal (white (getContrastInfo (hslToRgb (202, 77, 40))))
   \<and> passesLarge (white (getContrastInfo (hslToRgb (202, 77, 40))))"
proof -
  have "rgbToHSL (55, 145, 198) = (202, 57, 50)"
    by (simp add: rgbToHSL_def js_round_def Let_def)
  then show ?thesis
    using full_mode_result_passes_all_four_flags[OF findFullyAccessibleColor_scenarioA]
      findFullyAccessibleColor_scenarioA by blast
qed


text \<open>
  For comparison, the plain search of \<open>accessibility.js\<close> has no accessibility mode: with
  its default \<open>textColor = 'both'\<close> it scores a colour by the better of its two ratios,
  so it hands the colour of scenario A back unchanged, although that colour fails normal
  text against white.
\<close>

lemma findAccessibleColor_scenarioA:
  "findAccessibleColor (202, 57, 50) default_search_options = (202, 57, 50)
   \<and> \<not> passesNormal (white (getContrastInfo (hslToRgb (202, 57, 50))))"
proof -
  have rgbv: "hslToRgb (202, 57, 50) = (55, 147, 200)"
    by (simp add: hslToRgb_def hue2rgb_def js_round_def Let_def)
  have v: "validRGB (55, 147, 200)" by (simp add: validRGB_def)
  have g: "2917 / 10000 \<le> linearize 147"
    by (rule linearize_ge, simp, simp, simp add: power_divide)
  have "0 \<le> linearize 55" "0 \<le> linearize 200" by (simp_all add: linearize_range)
  then have L: "0.1836 \<le> calculateLuminance (55, 147, 200)"
    using g by (simp add: calculateLuminance_def)
  then have "0.17475 \<le> calculateLuminance (55, 147, 200)" by simp
  from black_ratio_reached[OF v this]
  have "calculateAccessibilityScore (202, 57, 50) ''both'' \<ge> 4.5"
    by (simp add: calculateAccessibilityScore_def rgbv Let_def le_max_iff_disj)
  then have a: "findAccessibleColor (202, 57, 50) default_search_options = (202, 57, 50)"
    by (simp add: findAccessibleColor_def default_search_options_def)
  have b: "\<not> passesNormal (white (getContrastInfo (hslToRgb (202, 57, 50))))"
    using white_ratio_below[OF v L]
    by (simp add: rgbv getContrastInfo_def contrastSide_def Let_def)
  show ?thesis using a b by blast
qed

end
